theory Spec2Isabelle
  imports Complex_Main "HOL-Library.Word" "HOL-Library.AList"
begin

section \<open>Strings\<close>

text \<open>
  A JavaScript string is a sequence of 16-bit UTF-16 code units; \<open>length\<close>, indexing
  and \<open>substring\<close> count code units.  The Cyrillic letters of the tables all lie in the
  Basic Multilingual Plane, one code unit each.
\<close>

type_synonym jschar = "16 word"
type_synonym jsstring = "jschar list"

text \<open>An ASCII literal of the source as a sequence of code units.\<close>

definition ascii :: "string \<Rightarrow> jsstring" where
  "ascii s = map (\<lambda>c. word_of_nat (of_char c)) s"

text \<open>
  \<open>String.prototype.substring(start, end)\<close> on natural-number arguments: the two
  indices are swapped when \<open>start > end\<close>, and both are clamped to the length of the
  string (which \<open>take\<close> and \<open>drop\<close> do).
\<close>

definition substring :: "jsstring \<Rightarrow> nat \<Rightarrow> nat \<Rightarrow> jsstring" where
  "substring s start fin =
     (if start \<le> fin then take (fin - start) (drop start s)
      else take (start - fin) (drop fin s))"

subsection \<open>Case conversion\<close>

text \<open>
  \<open>toLowerCase\<close> and \<open>toUpperCase\<close> are built into the language and follow the Unicode
  case mappings.  They are modelled code unit by code unit on the characters whose
  lower-case form is a character of the tables: Basic Latin (U+0000 to U+007F), the
  Cyrillic block (U+0400 to U+04FF) and the Kelvin sign (U+212A, whose lower-case form
  is \<open>k\<close> and whose upper-case form is itself).  Every other code unit is mapped to
  itself; its real lower-case form is never a character of a key, so whether a chunk
  matches a key is the same here and in the language.
\<close>

definition lowerUnit :: "jschar \<Rightarrow> jschar" where
  "lowerUnit c =
     (if 0x41 \<le> c \<and> c \<le> 0x5A then c + 0x20
      else if 0x400 \<le> c \<and> c \<le> 0x40F then c + 0x50
      else if 0x410 \<le> c \<and> c \<le> 0x42F then c + 0x20
      else if ((0x460 \<le> c \<and> c \<le> 0x481) \<or> (0x48A \<le> c \<and> c \<le> 0x4BF)
               \<or> (0x4D0 \<le> c \<and> c \<le> 0x4FF)) \<and> even (unat c) then c + 1
      else if c = 0x4C0 then 0x4CF
      else if 0x4C1 \<le> c \<and> c \<le> 0x4CE \<and> odd (unat c) then c + 1
      else if c = 0x212A then 0x6B
      else c)"

definition upperUnit :: "jschar \<Rightarrow> jschar" where
  "upperUnit c =
     (if 0x61 \<le> c \<and> c \<le> 0x7A then c - 0x20
      else if 0x450 \<le> c \<and> c \<le> 0x45F then c - 0x50
      else if 0x430 \<le> c \<and> c \<le> 0x44F then c - 0x20
      else if ((0x460 \<le> c \<and> c \<le> 0x481) \<or> (0x48A \<le> c \<and> c \<le> 0x4BF)
               \<or> (0x4D0 \<le> c \<and> c \<le> 0x4FF)) \<and> odd (unat c) then c - 1
      else if c = 0x4CF then 0x4C0
      else if 0x4C1 \<le> c \<and> c \<le> 0x4CE \<and> even (unat c) then c - 1
      else c)"

definition toLowerCase :: "jsstring \<Rightarrow> jsstring" where
  "toLowerCase s = map lowerUnit s"

definition toUpperCase :: "jsstring \<Rightarrow> jsstring" where
  "toUpperCase s = map upperUnit s"

section \<open>Maps with insertion order\<close>

text \<open>
  A JavaScript \<open>Map\<close> keeps its keys in the order of their first insertion; \<open>set\<close> on
  a key that is present replaces the value and leaves the key where it is.  That is an
  association list with \<open>AList.update\<close>.
\<close>

type_synonym jsmap = "(jsstring \<times> jsstring) list"

definition map_set :: "jsstring \<Rightarrow> jsstring \<Rightarrow> jsmap \<Rightarrow> jsmap" where
  "map_set k v m = AList.update k v m"

definition map_has :: "jsmap \<Rightarrow> jsstring \<Rightarrow> bool" where
  "map_has m k = (map_of m k \<noteq> None)"

definition map_get :: "jsmap \<Rightarrow> jsstring \<Rightarrow> jsstring option" where
  "map_get m k = map_of m k"

definition map_keys :: "jsmap \<Rightarrow> jsstring list" where
  "map_keys m = map fst m"

section \<open>Mapping tables\<close>

record CharacterMapping =
  latin :: jsstring
  cyrillic :: jsstring

definition entry :: "string \<Rightarrow> jsstring \<Rightarrow> CharacterMapping" where
  "entry l c = \<lparr>latin = ascii l, cyrillic = c\<rparr>"

text \<open>Code units of the Cyrillic letters that occur in the tables.\<close>

abbreviation (input) cyr_a :: jschar where "cyr_a \<equiv> 0x430"
abbreviation (input) cyr_be :: jschar where "cyr_be \<equiv> 0x431"
abbreviation (input) cyr_ve :: jschar where "cyr_ve \<equiv> 0x432"
abbreviation (input) cyr_ghe :: jschar where "cyr_ghe \<equiv> 0x433"
abbreviation (input) cyr_de :: jschar where "cyr_de \<equiv> 0x434"
abbreviation (input) cyr_ie :: jschar where "cyr_ie \<equiv> 0x435"
abbreviation (input) cyr_zhe :: jschar where "cyr_zhe \<equiv> 0x436"
abbreviation (input) cyr_ze :: jschar where "cyr_ze \<equiv> 0x437"
abbreviation (input) cyr_i :: jschar where "cyr_i \<equiv> 0x438"
abbreviation (input) cyr_short_i :: jschar where "cyr_short_i \<equiv> 0x439"
abbreviation (input) cyr_ka :: jschar where "cyr_ka \<equiv> 0x43A"
abbreviation (input) cyr_el :: jschar where "cyr_el \<equiv> 0x43B"
abbreviation (input) cyr_em :: jschar where "cyr_em \<equiv> 0x43C"
abbreviation (input) cyr_en :: jschar where "cyr_en \<equiv> 0x43D"
abbreviation (input) cyr_o :: jschar where "cyr_o \<equiv> 0x43E"
abbreviation (input) cyr_pe :: jschar where "cyr_pe \<equiv> 0x43F"
abbreviation (input) cyr_er :: jschar where "cyr_er \<equiv> 0x440"
abbreviation (input) cyr_es :: jschar where "cyr_es \<equiv> 0x441"
abbreviation (input) cyr_te :: jschar where "cyr_te \<equiv> 0x442"
abbreviation (input) cyr_u :: jschar where "cyr_u \<equiv> 0x443"
abbreviation (input) cyr_ef :: jschar where "cyr_ef \<equiv> 0x444"
abbreviation (input) cyr_ha :: jschar where "cyr_ha \<equiv> 0x445"
abbreviation (input) cyr_tse :: jschar where "cyr_tse \<equiv> 0x446"
abbreviation (input) cyr_che :: jschar where "cyr_che \<equiv> 0x447"
abbreviation (input) cyr_sha :: jschar where "cyr_sha \<equiv> 0x448"
abbreviation (input) cyr_shcha :: jschar where "cyr_shcha \<equiv> 0x449"
abbreviation (input) cyr_hard_sign :: jschar where "cyr_hard_sign \<equiv> 0x44A"
abbreviation (input) cyr_yeru :: jschar where "cyr_yeru \<equiv> 0x44B"
abbreviation (input) cyr_soft_sign :: jschar where "cyr_soft_sign \<equiv> 0x44C"
abbreviation (input) cyr_e :: jschar where "cyr_e \<equiv> 0x44D"
abbreviation (input) cyr_yu :: jschar where "cyr_yu \<equiv> 0x44E"
abbreviation (input) cyr_ya :: jschar where "cyr_ya \<equiv> 0x44F"
abbreviation (input) cyr_io :: jschar where "cyr_io \<equiv> 0x451"
abbreviation (input) cyr_short_u :: jschar where "cyr_short_u \<equiv> 0x45E"
abbreviation (input) cyr_ghe_stroke :: jschar where "cyr_ghe_stroke \<equiv> 0x493"
abbreviation (input) cyr_ka_descender :: jschar where "cyr_ka_descender \<equiv> 0x49B"
abbreviation (input) cyr_ha_descender :: jschar where "cyr_ha_descender \<equiv> 0x4B3"
abbreviation (input) cyr_cap_soft_sign :: jschar where "cyr_cap_soft_sign \<equiv> 0x42C"

subsection \<open>The generic (Russian) table\<close>

definition LATIN_CYRILLIC_MAP :: "CharacterMapping list" where
  "LATIN_CYRILLIC_MAP =
    [entry ''shch'' [cyr_shcha],
     entry ''yo'' [cyr_io],
     entry ''zh'' [cyr_zhe],
     entry ''kh'' [cyr_ha],
     entry ''ts'' [cyr_tse],
     entry ''ch'' [cyr_che],
     entry ''sh'' [cyr_sha],
     entry ''yu'' [cyr_yu],
     entry ''ya'' [cyr_ya],
     entry ''ye'' [cyr_e],
     entry [CHR ''y'', CHR 0x27] [cyr_yeru],
     entry [CHR 0x22] [cyr_hard_sign],
     entry [CHR 0x27] [cyr_soft_sign],
     entry ''a'' [cyr_a],
     entry ''b'' [cyr_be],
     entry ''v'' [cyr_ve],
     entry ''g'' [cyr_ghe],
     entry ''d'' [cyr_de],
     entry ''e'' [cyr_ie],
     entry ''z'' [cyr_ze],
     entry ''i'' [cyr_i],
     entry ''y'' [cyr_short_i],
     entry ''k'' [cyr_ka],
     entry ''l'' [cyr_el],
     entry ''m'' [cyr_em],
     entry ''n'' [cyr_en],
     entry ''o'' [cyr_o],
     entry ''p'' [cyr_pe],
     entry ''r'' [cyr_er],
     entry ''s'' [cyr_es],
     entry ''t'' [cyr_te],
     entry ''u'' [cyr_u],
     entry ''f'' [cyr_ef],
     entry ''h'' [cyr_ha],
     entry ''c'' [cyr_tse],
     entry ''w'' [cyr_ve],
     entry ''x'' [cyr_ka, cyr_es],
     entry ''q'' [cyr_ka]]"

subsection \<open>The Uzbek tables\<close>

definition UZBEK_LATIN_CYRILLIC_MAP :: "CharacterMapping list" where
  "UZBEK_LATIN_CYRILLIC_MAP =
    [entry ''ch'' [cyr_che],
     entry ''sh'' [cyr_sha],
     entry [CHR ''g'', CHR 0x27] [cyr_ghe_stroke],
     entry [CHR ''o'', CHR 0x27] [cyr_short_u],
     entry ''ng'' [cyr_en, cyr_ghe],
     entry [CHR 0x27] [cyr_hard_sign],
     entry ''a'' [cyr_a],
     entry ''b'' [cyr_be],
     entry ''d'' [cyr_de],
     entry ''e'' [cyr_ie],
     entry ''f'' [cyr_ef],
     entry ''g'' [cyr_ghe],
     entry ''h'' [cyr_ha_descender],
     entry ''i'' [cyr_i],
     entry ''j'' [cyr_zhe],
     entry ''k'' [cyr_ka],
     entry ''l'' [cyr_el],
     entry ''m'' [cyr_em],
     entry ''n'' [cyr_en],
     entry ''o'' [cyr_o],
     entry ''p'' [cyr_pe],
     entry ''q'' [cyr_ka_descender],
     entry ''r'' [cyr_er],
     entry ''s'' [cyr_es],
     entry ''t'' [cyr_te],
     entry ''u'' [cyr_u],
     entry ''v'' [cyr_ve],
     entry ''x'' [cyr_ha],
     entry ''y'' [cyr_short_i],
     entry ''z'' [cyr_ze]]"

definition UZBEK_CYRILLIC_TO_LATIN_EXTRAS :: "CharacterMapping list" where
  "UZBEK_CYRILLIC_TO_LATIN_EXTRAS =
    [entry ''ye'' [cyr_ie],
     entry ''yo'' [cyr_io],
     entry ''yu'' [cyr_yu],
     entry ''ya'' [cyr_ya],
     entry ''ts'' [cyr_tse],
     entry ''shch'' [cyr_shcha],
     entry '''' [cyr_soft_sign],
     entry '''' [cyr_hard_sign]]"

section \<open>Lookup indexes\<close>

record LookupMaps =
  latinToCyrillicMap :: jsmap
  cyrillicToLatinMap :: jsmap

text \<open>The body of the \<open>for\<close> loop over the main table, in both modules.\<close>

definition setBoth :: "CharacterMapping \<Rightarrow> LookupMaps \<Rightarrow> LookupMaps" where
  "setBoth e maps =
     \<lparr>latinToCyrillicMap = map_set (latin e) (cyrillic e) (latinToCyrillicMap maps),
      cyrillicToLatinMap = map_set (cyrillic e) (latin e) (cyrillicToLatinMap maps)\<rparr>"

text \<open>The body of the \<open>for\<close> loop over the Uzbek extras.\<close>

definition setExtra :: "CharacterMapping \<Rightarrow> LookupMaps \<Rightarrow> LookupMaps" where
  "setExtra e maps =
     (if \<not> map_has (cyrillicToLatinMap maps) (cyrillic e)
      then maps\<lparr>cyrillicToLatinMap := map_set (cyrillic e) (latin e) (cyrillicToLatinMap maps)\<rparr>
      else maps)"

definition emptyMaps :: LookupMaps where
  "emptyMaps = \<lparr>latinToCyrillicMap = [], cyrillicToLatinMap = []\<rparr>"

definition buildLookupMaps :: LookupMaps where
  "buildLookupMaps = fold setBoth LATIN_CYRILLIC_MAP emptyMaps"

definition uzbek_buildLookupMaps :: LookupMaps where
  "uzbek_buildLookupMaps =
     fold setExtra UZBEK_CYRILLIC_TO_LATIN_EXTRAS
       (fold setBoth UZBEK_LATIN_CYRILLIC_MAP emptyMaps)"

definition latinToCyrillic :: jsmap where
  "latinToCyrillic = latinToCyrillicMap buildLookupMaps"

definition cyrillicToLatin :: jsmap where
  "cyrillicToLatin = cyrillicToLatinMap buildLookupMaps"

definition uzbek_latinToCyrillic :: jsmap where
  "uzbek_latinToCyrillic = latinToCyrillicMap uzbek_buildLookupMaps"

definition uzbek_cyrillicToLatin :: jsmap where
  "uzbek_cyrillicToLatin = cyrillicToLatinMap uzbek_buildLookupMaps"

text \<open>
  \<open>Array.from(map.keys()).sort((a, b) => b.length - a.length)\<close>: the keys in insertion
  order, sorted by descending length.  \<open>Array.prototype.sort\<close> is stable, and so is
  \<open>sort_key\<close>.
\<close>

definition getSortedKeys :: "jsmap \<Rightarrow> jsstring list" where
  "getSortedKeys m = sort_key (\<lambda>k. - int (length k)) (map_keys m)"

definition sortedLatinKeys :: "jsstring list" where
  "sortedLatinKeys = getSortedKeys latinToCyrillic"

definition sortedCyrillicKeys :: "jsstring list" where
  "sortedCyrillicKeys = getSortedKeys cyrillicToLatin"

definition uzbek_sortedLatinKeys :: "jsstring list" where
  "uzbek_sortedLatinKeys = getSortedKeys uzbek_latinToCyrillic"

definition uzbek_sortedCyrillicKeys :: "jsstring list" where
  "uzbek_sortedCyrillicKeys = getSortedKeys uzbek_cyrillicToLatin"

section \<open>Case matching\<close>

text \<open>Both modules define \<open>isUpperCase\<close> and \<open>matchCase\<close> with the same body.\<close>

definition isUpperCase :: "jsstring \<Rightarrow> bool" where
  "isUpperCase char = (char \<noteq> toLowerCase char \<and> char = toUpperCase char)"

definition matchCase :: "jsstring \<Rightarrow> jsstring \<Rightarrow> jsstring" where
  "matchCase source target =
     (if length source = 0 \<or> length target = 0 then target
      else if source = toUpperCase source \<and> source \<noteq> toLowerCase source
        then toUpperCase target
      else if isUpperCase [source ! 0]
        then toUpperCase [target ! 0] @ drop 1 target
      else target)"

section \<open>The transducers\<close>

datatype error = TypeError | UnknownConverter jsstring

text \<open>
  The inner \<open>for\<close> loop of the four converters: the first key of the sorted list whose
  text equals the lower-cased chunk of the same length at the cursor.
\<close>

definition findKey :: "jsstring list \<Rightarrow> jsstring \<Rightarrow> nat \<Rightarrow> jsstring option" where
  "findKey sortedKeys text i =
     find (\<lambda>key. toLowerCase (substring text i (i + length key)) = key) sortedKeys"

text \<open>
  The \<open>while\<close> loop of the four converters, which differ only in the key list and the
  map they read.  The result \<open>None\<close> stands for a loop that never ends; a key with no
  entry in the map makes \<open>matchCase\<close> read \<open>length\<close> of \<open>undefined\<close>, a \<open>TypeError\<close>.
\<close>

partial_function (option) scanLoop ::
  "jsstring list \<Rightarrow> jsmap \<Rightarrow> jsstring \<Rightarrow> nat \<Rightarrow> jsstring \<Rightarrow> (error + jsstring) option"
where
  "scanLoop sortedKeys index text i result =
     (if i < length text then
        (case findKey sortedKeys text i of
           Some key \<Rightarrow>
             (case map_get index key of
                None \<Rightarrow> Some (Inl TypeError)
              | Some replacement \<Rightarrow>
                  scanLoop sortedKeys index text (i + length key)
                    (result @ matchCase (substring text i (i + length key)) replacement))
         | None \<Rightarrow> scanLoop sortedKeys index text (i + 1) (result @ [text ! i]))
      else Some (Inr result))"

declare scanLoop.simps [code]

definition latinToCyrillicConvert :: "jsstring \<Rightarrow> (error + jsstring) option" where
  "latinToCyrillicConvert text = scanLoop sortedLatinKeys latinToCyrillic text 0 []"

definition cyrillicToLatinConvert :: "jsstring \<Rightarrow> (error + jsstring) option" where
  "cyrillicToLatinConvert text = scanLoop sortedCyrillicKeys cyrillicToLatin text 0 []"

definition uzbekLatinToCyrillic :: "jsstring \<Rightarrow> (error + jsstring) option" where
  "uzbekLatinToCyrillic text =
     scanLoop uzbek_sortedLatinKeys uzbek_latinToCyrillic text 0 []"

definition uzbekCyrillicToLatin :: "jsstring \<Rightarrow> (error + jsstring) option" where
  "uzbekCyrillicToLatin text =
     scanLoop uzbek_sortedCyrillicKeys uzbek_cyrillicToLatin text 0 []"

section \<open>Converter registry\<close>

text \<open>
  A converter's function returns like the transducers above: \<open>None\<close> when it does not
  return, \<open>Inl\<close> when it throws.
\<close>

record Converter =
  conv_id :: jsstring
  conv_name :: jsstring
  conv_convert :: "jsstring \<Rightarrow> (error + jsstring) option"

type_synonym registry = "(jsstring \<times> Converter) list"

text \<open>The module-level \<open>Map\<close> is threaded through as an argument.\<close>

definition registerConverter :: "Converter \<Rightarrow> registry \<Rightarrow> registry" where
  "registerConverter converter converters =
     AList.update (conv_id converter) converter converters"

definition getConverter :: "registry \<Rightarrow> jsstring \<Rightarrow> Converter option" where
  "getConverter converters ident = map_of converters ident"

definition convert :: "registry \<Rightarrow> jsstring \<Rightarrow> jsstring \<Rightarrow> (error + jsstring) option" where
  "convert converters text ty =
     (case map_of converters ty of
        None \<Rightarrow> Some (Inl (UnknownConverter ty))
      | Some converter \<Rightarrow> conv_convert converter text)"

definition isConversionType :: "registry \<Rightarrow> jsstring \<Rightarrow> bool" where
  "isConversionType converters action = (map_of converters action \<noteq> None)"

text \<open>The four registrations the module performs when it is loaded, in their order.\<close>

definition builtinConverters :: "Converter list" where
  "builtinConverters =
    [\<lparr>conv_id = ascii ''latin-to-cyrillic'',
      conv_name = ascii ''Latin '' @ [0x2192] @ ascii '' Cyrillic (Russian)'',
      conv_convert = latinToCyrillicConvert\<rparr>,
     \<lparr>conv_id = ascii ''cyrillic-to-latin'',
      conv_name = ascii ''Cyrillic '' @ [0x2192] @ ascii '' Latin (Russian)'',
      conv_convert = cyrillicToLatinConvert\<rparr>,
     \<lparr>conv_id = ascii ''uz-latn-to-uz-cyrl'',
      conv_name = ascii ''Uzbek Latin '' @ [0x2192] @ ascii '' Cyrillic'',
      conv_convert = uzbekLatinToCyrillic\<rparr>,
     \<lparr>conv_id = ascii ''uz-cyrl-to-uz-latn'',
      conv_name = ascii ''Uzbek Cyrillic '' @ [0x2192] @ ascii '' Latin'',
      conv_convert = uzbekCyrillicToLatin\<rparr>]"

definition converters :: registry where
  "converters = fold registerConverter builtinConverters []"

section \<open>Script classifier\<close>

datatype ScriptType = Latin | Cyrillic | Mixed | Unknown

text \<open>
  The counts are integers.  The two percentages are IEEE doubles in the program and exact
  reals here; the quotient of two counts times 100 is compared with 90 only, and rounding
  does not move a quotient across that threshold for any string a JavaScript engine can
  hold (nine tenths times 100 rounds to 90 exactly, and the nearest other quotient of
  counts is farther from nine tenths than the rounding error).
\<close>

record ScriptAnalysis =
  scriptType :: ScriptType
  latinCount :: nat
  cyrillicCount :: nat
  totalLetters :: nat
  latinPercentage :: real
  cyrillicPercentage :: real

text \<open>
  \<open>for (const char of text)\<close> iterates code points: a high surrogate followed by a low
  surrogate is one \<open>char\<close> of two code units, every other code unit is a \<open>char\<close> of its
  own.
\<close>

definition isHighSurrogate :: "jschar \<Rightarrow> bool" where
  "isHighSurrogate u = (0xD800 \<le> u \<and> u \<le> 0xDBFF)"

definition isLowSurrogate :: "jschar \<Rightarrow> bool" where
  "isLowSurrogate u = (0xDC00 \<le> u \<and> u \<le> 0xDFFF)"

fun codePoints :: "jsstring \<Rightarrow> jsstring list" where
  "codePoints [] = []"
| "codePoints [u] = [[u]]"
| "codePoints (u # v # rest) =
     (if isHighSurrogate u \<and> isLowSurrogate v then [u, v] # codePoints rest
      else [u] # codePoints (v # rest))"

text \<open>
  The two character classes, \<open>[A-Za-z]\<close> and U+0400 to U+04FF, on one code unit.
\<close>

definition inLatinRange :: "jschar \<Rightarrow> bool" where
  "inLatinRange u = ((0x41 \<le> u \<and> u \<le> 0x5A) \<or> (0x61 \<le> u \<and> u \<le> 0x7A))"

definition inCyrillicRange :: "jschar \<Rightarrow> bool" where
  "inCyrillicRange u = (0x400 \<le> u \<and> u \<le> 0x4FF)"

text \<open>
  \<open>LATIN_RANGE.test\<close> and \<open>CYRILLIC_RANGE.test\<close>: the patterns have no anchors and no
  \<open>u\<close> flag, so they succeed when some code unit of the string is in the class.
\<close>

definition LATIN_RANGE_test :: "jsstring \<Rightarrow> bool" where
  "LATIN_RANGE_test s = list_ex inLatinRange s"

definition CYRILLIC_RANGE_test :: "jsstring \<Rightarrow> bool" where
  "CYRILLIC_RANGE_test s = list_ex inCyrillicRange s"

text \<open>The body of the counting loop on the pair \<open>(latinCount, cyrillicCount)\<close>.\<close>

fun countChar :: "jsstring \<Rightarrow> nat \<times> nat \<Rightarrow> nat \<times> nat" where
  "countChar char (nLatin, nCyrillic) =
     (if LATIN_RANGE_test char then (nLatin + 1, nCyrillic)
      else if CYRILLIC_RANGE_test char then (nLatin, nCyrillic + 1)
      else (nLatin, nCyrillic))"

definition countLetters :: "jsstring \<Rightarrow> nat \<times> nat" where
  "countLetters text = fold countChar (codePoints text) (0, 0)"

definition analyzeScript :: "jsstring \<Rightarrow> ScriptAnalysis" where
  "analyzeScript text =
     (case countLetters text of (nLatin, nCyrillic) \<Rightarrow>
        let total = nLatin + nCyrillic in
        if total = 0 then
          \<lparr>scriptType = Unknown, latinCount = 0, cyrillicCount = 0, totalLetters = 0,
           latinPercentage = 0, cyrillicPercentage = 0\<rparr>
        else
          let pLatin = (real nLatin / real total) * 100;
              pCyrillic = (real nCyrillic / real total) * 100;
              ty = (if pLatin \<ge> 90 then Latin
                    else if pCyrillic \<ge> 90 then Cyrillic
                    else if total > 0 then Mixed
                    else Unknown)
          in \<lparr>scriptType = ty, latinCount = nLatin, cyrillicCount = nCyrillic,
              totalLetters = total, latinPercentage = pLatin,
              cyrillicPercentage = pCyrillic\<rparr>)"

section \<open>The loop always returns\<close>

lemma findKey_Some_mem: "findKey keys text i = Some key \<Longrightarrow> key \<in> set keys"
  by (auto simp: findKey_def find_Some_iff)

lemma findKey_Some_match:
  "findKey keys text i = Some key \<Longrightarrow> toLowerCase (substring text i (i + length key)) = key"
  by (auto simp: findKey_def find_Some_iff)

lemma scanLoop_returns:
  assumes ne: "[] \<notin> set keys" and has: "list_all (map_has index) keys"
  shows "\<exists>out. scanLoop keys index text i result = Some (Inr out)"
proof (induction "length text - i" arbitrary: i result rule: less_induct)
  case less
  show ?case
  proof (cases "i < length text")
    case False
    then show ?thesis by (subst scanLoop.simps) simp
  next
    case inside: True
    show ?thesis
    proof (cases "findKey keys text i")
      case None
      have "length text - (i + 1) < length text - i" using inside by simp
      from less [OF this] obtain out
        where "scanLoop keys index text (i + 1) (result @ [text ! i]) = Some (Inr out)"
        by blast
      then show ?thesis using inside None by (subst scanLoop.simps) simp
    next
      case (Some key)
      then have mem: "key \<in> set keys" by (rule findKey_Some_mem)
      with ne have "key \<noteq> []" by auto
      then have "0 < length key" by simp
      then have "length text - (i + length key) < length text - i" using inside by arith
      from less [OF this] obtain out where
        "scanLoop keys index text (i + length key)
           (result @ matchCase (substring text i (i + length key)) (the (map_get index key)))
         = Some (Inr out)"
        by blast
      moreover from mem has obtain r where "map_get index key = Some r"
        by (auto simp: list_all_iff map_has_def map_get_def)
      ultimately show ?thesis using inside Some by (subst scanLoop.simps) simp
    qed
  qed
qed

lemma scanLoop_empty: "scanLoop keys index [] 0 [] = Some (Inr [])"
  by (subst scanLoop.simps) simp

lemma keys_getSortedKeys: "set (getSortedKeys m) = set (map_keys m)"
  by (simp add: getSortedKeys_def)

lemma has_getSortedKeys: "list_all (map_has m) (getSortedKeys m)"
  by (auto simp: list_all_iff keys_getSortedKeys map_keys_def map_has_def
      dest!: weak_map_of_SomeI)

lemma sortedLatinKeys_nonempty: "[] \<notin> set sortedLatinKeys"
  by code_simp

lemma sortedCyrillicKeys_nonempty: "[] \<notin> set sortedCyrillicKeys"
  by code_simp

lemma uzbek_sortedLatinKeys_nonempty: "[] \<notin> set uzbek_sortedLatinKeys"
  by code_simp

lemma uzbek_sortedCyrillicKeys_nonempty: "[] \<notin> set uzbek_sortedCyrillicKeys"
  by code_simp

lemma latinToCyrillicConvert_returns:
  "\<exists>out. latinToCyrillicConvert text = Some (Inr out)"
  unfolding latinToCyrillicConvert_def sortedLatinKeys_def
  using sortedLatinKeys_nonempty has_getSortedKeys
  by (intro scanLoop_returns) (simp_all add: sortedLatinKeys_def)

lemma cyrillicToLatinConvert_returns:
  "\<exists>out. cyrillicToLatinConvert text = Some (Inr out)"
  unfolding cyrillicToLatinConvert_def sortedCyrillicKeys_def
  using sortedCyrillicKeys_nonempty has_getSortedKeys
  by (intro scanLoop_returns) (simp_all add: sortedCyrillicKeys_def)

lemma uzbekLatinToCyrillic_returns:
  "\<exists>out. uzbekLatinToCyrillic text = Some (Inr out)"
  unfolding uzbekLatinToCyrillic_def uzbek_sortedLatinKeys_def
  using uzbek_sortedLatinKeys_nonempty has_getSortedKeys
  by (intro scanLoop_returns) (simp_all add: uzbek_sortedLatinKeys_def)

lemma uzbekCyrillicToLatin_returns:
  "\<exists>out. uzbekCyrillicToLatin text = Some (Inr out)"
  unfolding uzbekCyrillicToLatin_def uzbek_sortedCyrillicKeys_def
  using uzbek_sortedCyrillicKeys_nonempty has_getSortedKeys
  by (intro scanLoop_returns) (simp_all add: uzbek_sortedCyrillicKeys_def)

text \<open>
  Claim C9.  Each of the four transliteration functions returns a string for every
  input: no scan runs forever and none throws.  The reasons are the ones the claim
  gives: no key of the four sorted key lists is empty, so every iteration moves the
  cursor forward by at least one code unit, and every key of a sorted list has an entry
  in the map the list was built from, so the lookup for a matched key succeeds.  On the
  empty string each function returns the empty string.
\<close>

theorem transliteration_total:
  "(\<exists>out. latinToCyrillicConvert text = Some (Inr out))
   \<and> (\<exists>out. cyrillicToLatinConvert text = Some (Inr out))
   \<and> (\<exists>out. uzbekLatinToCyrillic text = Some (Inr out))
   \<and> (\<exists>out. uzbekCyrillicToLatin text = Some (Inr out))
   \<and> [] \<notin> set sortedLatinKeys \<and> [] \<notin> set sortedCyrillicKeys
   \<and> [] \<notin> set uzbek_sortedLatinKeys \<and> [] \<notin> set uzbek_sortedCyrillicKeys
   \<and> (case findKey sortedLatinKeys text i of Some key \<Rightarrow> i < i + length key | None \<Rightarrow> i < i + 1)
   \<and> (case findKey sortedCyrillicKeys text i of Some key \<Rightarrow> i < i + length key | None \<Rightarrow> i < i + 1)
   \<and> (case findKey uzbek_sortedLatinKeys text i of Some key \<Rightarrow> i < i + length key | None \<Rightarrow> i < i + 1)
   \<and> (case findKey uzbek_sortedCyrillicKeys text i of Some key \<Rightarrow> i < i + length key | None \<Rightarrow> i < i + 1)
   \<and> list_all (map_has latinToCyrillic) sortedLatinKeys
   \<and> list_all (map_has cyrillicToLatin) sortedCyrillicKeys
   \<and> list_all (map_has uzbek_latinToCyrillic) uzbek_sortedLatinKeys
   \<and> list_all (map_has uzbek_cyrillicToLatin) uzbek_sortedCyrillicKeys
   \<and> latinToCyrillicConvert [] = Some (Inr [])
   \<and> cyrillicToLatinConvert [] = Some (Inr [])
   \<and> uzbekLatinToCyrillic [] = Some (Inr [])
   \<and> uzbekCyrillicToLatin [] = Some (Inr [])"
proof -
  have adv: "(case findKey keys text i of Some key \<Rightarrow> i < i + length key | None \<Rightarrow> i < i + 1)"
    if "[] \<notin> set keys" for keys
    using that by (auto split: option.split dest: findKey_Some_mem)
  show ?thesis
    using latinToCyrillicConvert_returns [of "text"] cyrillicToLatinConvert_returns [of "text"]
      uzbekLatinToCyrillic_returns [of "text"] uzbekCyrillicToLatin_returns [of "text"]
      adv [OF sortedLatinKeys_nonempty] adv [OF sortedCyrillicKeys_nonempty]
      adv [OF uzbek_sortedLatinKeys_nonempty] adv [OF uzbek_sortedCyrillicKeys_nonempty]
      sortedLatinKeys_nonempty sortedCyrillicKeys_nonempty
      uzbek_sortedLatinKeys_nonempty uzbek_sortedCyrillicKeys_nonempty
      has_getSortedKeys [of latinToCyrillic] has_getSortedKeys [of cyrillicToLatin]
      has_getSortedKeys [of uzbek_latinToCyrillic] has_getSortedKeys [of uzbek_cyrillicToLatin]
    by (simp add: latinToCyrillicConvert_def cyrillicToLatinConvert_def
        uzbekLatinToCyrillic_def uzbekCyrillicToLatin_def scanLoop_empty
        sortedLatinKeys_def sortedCyrillicKeys_def
        uzbek_sortedLatinKeys_def uzbek_sortedCyrillicKeys_def)
qed

section \<open>Greedy longest match\<close>

lemma find_sort_key_least:
  assumes found: "find P (sort_key f xs) = Some x"
  shows "x \<in> set xs \<and> P x \<and> (\<forall>y\<in>set xs. P y \<longrightarrow> f x \<le> f y)"
proof -
  let ?ys = "sort_key f xs"
  from found obtain i where i: "i < length ?ys" "P (?ys ! i)" "x = ?ys ! i"
    and before: "\<forall>j<i. \<not> P (?ys ! j)"
    by (auto simp: find_Some_iff)
  have srt: "sorted (map f ?ys)" by (rule sorted_sort_key)
  have "f x \<le> f y" if "y \<in> set xs" "P y" for y
  proof -
    from that(1) have "y \<in> set ?ys" by simp
    then obtain j where j: "j < length ?ys" "y = ?ys ! j"
      unfolding in_set_conv_nth by blast
    with before that(2) have "i \<le> j" by (meson not_le)
    with srt j(1) have "map f ?ys ! i \<le> map f ?ys ! j"
      by (intro sorted_nth_mono) simp_all
    with i j show ?thesis by simp
  qed
  moreover have "x \<in> set xs" using i(1,3) by (metis nth_mem set_sort)
  ultimately show ?thesis using i by blast
qed

lemma shchuka_first_key:
  "findKey sortedLatinKeys (ascii ''shchuka'') 0 = Some (ascii ''shch'')"
  by code_simp

lemma shchuka_converted:
  "latinToCyrillicConvert (ascii ''shchuka'') = Some (Inr [cyr_shcha, cyr_u, cyr_ka, cyr_a])"
  by code_simp

text \<open>
  Claim C1.  Greedy longest match.  At every cursor position \<open>i\<close> of every text, and for
  the sorted key list of any map, the key the inner loop stops at is a key of the map
  that equals the lower-cased chunk of its own length at the cursor, and no key of the
  map that also equals its chunk is longer; when the loop finds nothing, no key of the
  map equals its chunk.  For the generic scheme and the input \<open>shchuka\<close> the first key
  matched is \<open>shch\<close>, of length 4, and the output is the four Cyrillic letters
  U+0449 U+0443 U+043A U+0430.
\<close>

theorem greedy_longest_match:
  "(case findKey (getSortedKeys m) text i of
      Some key \<Rightarrow>
        key \<in> set (map_keys m)
        \<and> toLowerCase (substring text i (i + length key)) = key
        \<and> (\<forall>k\<in>set (map_keys m).
              toLowerCase (substring text i (i + length k)) = k \<longrightarrow> length k \<le> length key)
    | None \<Rightarrow>
        (\<forall>k\<in>set (map_keys m). toLowerCase (substring text i (i + length k)) \<noteq> k))
   \<and> sortedLatinKeys = getSortedKeys latinToCyrillic
   \<and> findKey sortedLatinKeys (ascii ''shchuka'') 0 = Some (ascii ''shch'')
   \<and> length (ascii ''shch'') = 4
   \<and> latinToCyrillicConvert (ascii ''shchuka'') = Some (Inr [cyr_shcha, cyr_u, cyr_ka, cyr_a])"
proof -
  have "key \<in> set (map_keys m)
        \<and> toLowerCase (substring text i (i + length key)) = key
        \<and> (\<forall>k\<in>set (map_keys m).
              toLowerCase (substring text i (i + length k)) = k \<longrightarrow> length k \<le> length key)"
    if "findKey (getSortedKeys m) text i = Some key" for key
    using find_sort_key_least [OF that [unfolded findKey_def getSortedKeys_def]]
    by simp
  moreover have "\<forall>k\<in>set (map_keys m). toLowerCase (substring text i (i + length k)) \<noteq> k"
    if "findKey (getSortedKeys m) text i = None"
    using that by (auto simp: findKey_def find_None_iff getSortedKeys_def)
  moreover have "length (ascii ''shch'') = 4"
    by (simp add: ascii_def)
  ultimately show ?thesis
    using shchuka_first_key shchuka_converted
    by (simp add: sortedLatinKeys_def split: option.split)
qed

theorem greedy_longest_match_witness:
  "findKey (getSortedKeys latinToCyrillic) (ascii ''shchuka'') 0 = Some (ascii ''shch'')
   \<and> ascii ''shch'' \<in> set (map_keys latinToCyrillic)
   \<and> toLowerCase (substring (ascii ''shchuka'') 0 (0 + length (ascii ''shch''))) = ascii ''shch''
   \<and> ascii ''sh'' \<in> set (map_keys latinToCyrillic)
   \<and> toLowerCase (substring (ascii ''shchuka'') 0 (0 + length (ascii ''sh''))) = ascii ''sh''
   \<and> length (ascii ''sh'') \<le> length (ascii ''shch'')"
proof -
  have found: "findKey (getSortedKeys latinToCyrillic) (ascii ''shchuka'') 0 = Some (ascii ''shch'')"
    using shchuka_first_key by (simp add: sortedLatinKeys_def)
  have sh: "ascii ''sh'' \<in> set (map_keys latinToCyrillic)"
    by code_simp
  have chunk: "toLowerCase (substring (ascii ''shchuka'') 0 (0 + length (ascii ''sh''))) = ascii ''sh''"
    by code_simp
  show ?thesis
    using greedy_longest_match [of latinToCyrillic "ascii ''shchuka''" 0] found sh chunk
    by auto
qed

section \<open>The case matching rule\<close>

lemma scanLoop_match_step:
  assumes "i < length text" "findKey keys text i = Some key"
    and "map_get index key = Some replacement"
  shows "scanLoop keys index text i result =
         scanLoop keys index text (i + length key)
           (result @ matchCase (substring text i (i + length key)) replacement)"
  using assms by (subst scanLoop.simps) simp

lemma scanLoop_pass_step:
  assumes "i < length text" "findKey keys text i = None"
  shows "scanLoop keys index text i result =
         scanLoop keys index text (i + 1) (result @ [text ! i])"
  using assms by (subst scanLoop.simps) simp

lemma scanLoop_done:
  assumes "length text \<le> i"
  shows "scanLoop keys index text i result = Some (Inr result)"
  using assms by (subst scanLoop.simps) simp

lemma matchCase_cases:
  "matchCase source target =
    (if source \<noteq> toLowerCase source \<and> source = toUpperCase source then toUpperCase target
     else if source \<noteq> [] \<and> isUpperCase [hd source]
       then toUpperCase (take 1 target) @ drop 1 target
     else target)"
proof (cases "source = [] \<or> target = []")
  case True
  then show ?thesis
    by (auto simp: matchCase_def toLowerCase_def toUpperCase_def)
next
  case False
  then have "source ! 0 = hd source" "take 1 target = [target ! 0]"
    by (simp_all add: hd_conv_nth take_Suc_conv_app_nth)
  with False show ?thesis
    by (auto simp: matchCase_def)
qed

section \<open>Building the lookup maps\<close>

lemma find_snoc:
  "find P (xs @ [x]) =
     (case find P xs of Some y \<Rightarrow> Some y | None \<Rightarrow> if P x then Some x else None)"
  by (induction xs) simp_all

lemma setBoth_cyrillicToLatin:
  "map_get (cyrillicToLatinMap (setBoth e maps)) k =
     (if cyrillic e = k then Some (latin e) else map_get (cyrillicToLatinMap maps) k)"
  by (simp add: setBoth_def map_set_def map_get_def update_conv')

lemma setBoth_latinToCyrillic:
  "map_get (latinToCyrillicMap (setBoth e maps)) k =
     (if latin e = k then Some (cyrillic e) else map_get (latinToCyrillicMap maps) k)"
  by (simp add: setBoth_def map_set_def map_get_def update_conv')

lemma fold_setBoth_cyrillicToLatin:
  "map_get (cyrillicToLatinMap (fold setBoth t maps)) k =
     (case find (\<lambda>e. cyrillic e = k) (rev t) of
        Some e \<Rightarrow> Some (latin e)
      | None \<Rightarrow> map_get (cyrillicToLatinMap maps) k)"
proof (induction t arbitrary: maps)
  case Nil
  show ?case by simp
next
  case (Cons e t)
  have "map_get (cyrillicToLatinMap (fold setBoth (e # t) maps)) k =
        map_get (cyrillicToLatinMap (fold setBoth t (setBoth e maps))) k"
    by simp
  also have "\<dots> = (case find (\<lambda>e. cyrillic e = k) (rev t) of
        Some e \<Rightarrow> Some (latin e)
      | None \<Rightarrow> map_get (cyrillicToLatinMap (setBoth e maps)) k)"
    by (rule Cons.IH)
  also have "\<dots> = (case find (\<lambda>e. cyrillic e = k) (rev (e # t)) of
        Some e \<Rightarrow> Some (latin e)
      | None \<Rightarrow> map_get (cyrillicToLatinMap maps) k)"
    by (simp add: setBoth_cyrillicToLatin find_snoc split: option.split)
  finally show ?case .
qed

lemma fold_setBoth_latinToCyrillic:
  "map_get (latinToCyrillicMap (fold setBoth t maps)) k =
     (case find (\<lambda>e. latin e = k) (rev t) of
        Some e \<Rightarrow> Some (cyrillic e)
      | None \<Rightarrow> map_get (latinToCyrillicMap maps) k)"
proof (induction t arbitrary: maps)
  case Nil
  show ?case by simp
next
  case (Cons e t)
  have "map_get (latinToCyrillicMap (fold setBoth (e # t) maps)) k =
        map_get (latinToCyrillicMap (fold setBoth t (setBoth e maps))) k"
    by simp
  also have "\<dots> = (case find (\<lambda>e. latin e = k) (rev t) of
        Some e \<Rightarrow> Some (cyrillic e)
      | None \<Rightarrow> map_get (latinToCyrillicMap (setBoth e maps)) k)"
    by (rule Cons.IH)
  also have "\<dots> = (case find (\<lambda>e. latin e = k) (rev (e # t)) of
        Some e \<Rightarrow> Some (cyrillic e)
      | None \<Rightarrow> map_get (latinToCyrillicMap maps) k)"
    by (simp add: setBoth_latinToCyrillic find_snoc split: option.split)
  finally show ?case .
qed



lemma fold_setExtra_latinToCyrillic:
  "latinToCyrillicMap (fold setExtra xs maps) = latinToCyrillicMap maps"
proof (induction xs arbitrary: maps)
  case Nil
  show ?case by simp
next
  case (Cons e xs)
  have "latinToCyrillicMap (setExtra e maps) = latinToCyrillicMap maps"
    by (simp add: setExtra_def)
  with Cons.IH [of "setExtra e maps"] show ?case by simp
qed

lemma cyrillicToLatin_value:
  "cyrillicToLatin =
    [([cyr_shcha], ascii ''shch''), ([cyr_io], ascii ''yo''), ([cyr_zhe], ascii ''zh''),
     ([cyr_ha], ascii ''h''), ([cyr_tse], ascii ''c''), ([cyr_che], ascii ''ch''),
     ([cyr_sha], ascii ''sh''), ([cyr_yu], ascii ''yu''), ([cyr_ya], ascii ''ya''),
     ([cyr_e], ascii ''ye''), ([cyr_yeru], ascii [CHR ''y'', CHR 0x27]),
     ([cyr_hard_sign], ascii [CHR 0x22]), ([cyr_soft_sign], ascii [CHR 0x27]),
     ([cyr_a], ascii ''a''), ([cyr_be], ascii ''b''), ([cyr_ve], ascii ''w''),
     ([cyr_ghe], ascii ''g''), ([cyr_de], ascii ''d''), ([cyr_ie], ascii ''e''),
     ([cyr_ze], ascii ''z''), ([cyr_i], ascii ''i''), ([cyr_short_i], ascii ''y''),
     ([cyr_ka], ascii ''q''), ([cyr_el], ascii ''l''), ([cyr_em], ascii ''m''),
     ([cyr_en], ascii ''n''), ([cyr_o], ascii ''o''), ([cyr_pe], ascii ''p''),
     ([cyr_er], ascii ''r''), ([cyr_es], ascii ''s''), ([cyr_te], ascii ''t''),
     ([cyr_u], ascii ''u''), ([cyr_ef], ascii ''f''), ([cyr_ka, cyr_es], ascii ''x'')]"
  by code_simp

lemma uzbek_cyrillicToLatin_value:
  "uzbek_cyrillicToLatin =
    [([cyr_che], ascii ''ch''), ([cyr_sha], ascii ''sh''),
     ([cyr_ghe_stroke], ascii [CHR ''g'', CHR 0x27]),
     ([cyr_short_u], ascii [CHR ''o'', CHR 0x27]),
     ([cyr_en, cyr_ghe], ascii ''ng''), ([cyr_hard_sign], ascii [CHR 0x27]),
     ([cyr_a], ascii ''a''), ([cyr_be], ascii ''b''), ([cyr_de], ascii ''d''),
     ([cyr_ie], ascii ''e''), ([cyr_ef], ascii ''f''), ([cyr_ghe], ascii ''g''),
     ([cyr_ha_descender], ascii ''h''), ([cyr_i], ascii ''i''), ([cyr_zhe], ascii ''j''),
     ([cyr_ka], ascii ''k''), ([cyr_el], ascii ''l''), ([cyr_em], ascii ''m''),
     ([cyr_en], ascii ''n''), ([cyr_o], ascii ''o''), ([cyr_pe], ascii ''p''),
     ([cyr_ka_descender], ascii ''q''), ([cyr_er], ascii ''r''), ([cyr_es], ascii ''s''),
     ([cyr_te], ascii ''t''), ([cyr_u], ascii ''u''), ([cyr_ve], ascii ''v''),
     ([cyr_ha], ascii ''x''), ([cyr_short_i], ascii ''y''), ([cyr_ze], ascii ''z''),
     ([cyr_io], ascii ''yo''), ([cyr_yu], ascii ''yu''), ([cyr_ya], ascii ''ya''),
     ([cyr_tse], ascii ''ts''), ([cyr_shcha], ascii ''shch''), ([cyr_soft_sign], [])]"
  by code_simp

lemma uzbek_sortedCyrillicKeys_value:
  "uzbek_sortedCyrillicKeys =
    [[cyr_en, cyr_ghe], [cyr_che], [cyr_sha], [cyr_ghe_stroke], [cyr_short_u],
     [cyr_hard_sign], [cyr_a], [cyr_be], [cyr_de], [cyr_ie], [cyr_ef], [cyr_ghe],
     [cyr_ha_descender], [cyr_i], [cyr_zhe], [cyr_ka], [cyr_el], [cyr_em], [cyr_en],
     [cyr_o], [cyr_pe], [cyr_ka_descender], [cyr_er], [cyr_es], [cyr_te], [cyr_u],
     [cyr_ve], [cyr_ha], [cyr_short_i], [cyr_ze], [cyr_io], [cyr_yu], [cyr_ya],
     [cyr_tse], [cyr_shcha], [cyr_soft_sign]]"
  by code_simp

lemma generic_x_forward:
  "latinToCyrillicConvert (ascii ''x'') = Some (Inr [cyr_ka, cyr_es])"
  by code_simp

lemma generic_ks_back:
  "cyrillicToLatinConvert [cyr_ka, cyr_es] = Some (Inr (ascii ''x''))"
  by code_simp

lemma generic_ts_back:
  "cyrillicToLatinConvert [cyr_te, cyr_es] = Some (Inr (ascii ''ts''))"
  by code_simp

lemma generic_ts_forward:
  "latinToCyrillicConvert (ascii ''ts'') = Some (Inr [cyr_tse])"
  by code_simp

lemma generic_v_forward:
  "latinToCyrillicConvert (ascii ''v'') = Some (Inr [cyr_ve])"
  by code_simp

lemma generic_ve_back:
  "cyrillicToLatinConvert [cyr_ve] = Some (Inr (ascii ''w''))"
  by code_simp


section \<open>Round trips\<close>

text \<open>
  Claim C3, as the spec states it, fails on the code: the generic converter maps \<open>x\<close>
  to the two letters U+043A U+0441, and maps these two letters back to \<open>x\<close>, not to
  \<open>ks\<close>, because the two-letter key is in the reverse map and the longest key is tried
  first.
\<close>

theorem roundtrip_x_counterexample:
  "\<not> (latinToCyrillicConvert (ascii ''x'') = Some (Inr [cyr_ka, cyr_es])
      \<and> cyrillicToLatinConvert [cyr_ka, cyr_es] = Some (Inr (ascii ''ks'')))"
  using generic_ks_back by (simp add: ascii_def)

text \<open>
  Claim C3, amended.  A round trip need not give the input back: the Cyrillic text
  U+0442 U+0441 becomes \<open>ts\<close>, which becomes the single letter U+0446; and \<open>v\<close> becomes
  U+0432, which becomes \<open>w\<close>.  For \<open>x\<close> the round trip does hold: \<open>x\<close> becomes
  U+043A U+0441, and that becomes \<open>x\<close>.
\<close>

theorem roundtrip_lossy:
  "latinToCyrillicConvert (ascii ''x'') = Some (Inr [cyr_ka, cyr_es])
   \<and> cyrillicToLatinConvert [cyr_ka, cyr_es] = Some (Inr (ascii ''x''))
   \<and> cyrillicToLatinConvert [cyr_te, cyr_es] = Some (Inr (ascii ''ts''))
   \<and> latinToCyrillicConvert (ascii ''ts'') = Some (Inr [cyr_tse])
   \<and> [cyr_tse] \<noteq> [cyr_te, cyr_es]
   \<and> latinToCyrillicConvert (ascii ''v'') = Some (Inr [cyr_ve])
   \<and> cyrillicToLatinConvert [cyr_ve] = Some (Inr (ascii ''w''))
   \<and> ascii ''w'' \<noteq> ascii ''v''"
  using generic_x_forward generic_ks_back generic_ts_back generic_ts_forward
    generic_v_forward generic_ve_back
  by (simp add: ascii_def)

section \<open>Entries that share a source token\<close>

text \<open>
  Claim C4, as the spec states it, fails on the code.  The generic table has the entry
  \<open>kh\<close> for U+0445 at index 3 and the entry \<open>h\<close> for the same letter at index 33; the
  reverse map sends U+0445 to \<open>h\<close>, the later of the two, not to \<open>kh\<close>.
\<close>

theorem first_entry_wins_counterexample:
  "LATIN_CYRILLIC_MAP ! 3 = entry ''kh'' [cyr_ha]
   \<and> LATIN_CYRILLIC_MAP ! 33 = entry ''h'' [cyr_ha]
   \<and> map_get cyrillicToLatin [cyr_ha] = Some (ascii ''h'')
   \<and> map_get cyrillicToLatin [cyr_ha] \<noteq> Some (ascii ''kh'')"
  by (simp add: LATIN_CYRILLIC_MAP_def cyrillicToLatin_value map_get_def ascii_def)

text \<open>
  Claim C4, amended.  The loop over a main mapping table sets both maps without looking
  whether the key is present, so for every table and every key the value in either map
  is the one of the last entry of the table with that source token (and the value the
  map had before, when the table has no such entry).  In the generic reverse map the
  letters U+0445, U+0446, U+0432 and U+043A map to \<open>h\<close>, \<open>c\<close>, \<open>w\<close> and \<open>q\<close>, the later
  entry of each pair.
\<close>

theorem main_table_last_entry_wins:
  "map_get (cyrillicToLatinMap (fold setBoth t maps)) k =
     (case find (\<lambda>e. cyrillic e = k) (rev t) of
        Some e \<Rightarrow> Some (latin e)
      | None \<Rightarrow> map_get (cyrillicToLatinMap maps) k)
   \<and> map_get (latinToCyrillicMap (fold setBoth t maps)) k' =
     (case find (\<lambda>e. latin e = k') (rev t) of
        Some e \<Rightarrow> Some (cyrillic e)
      | None \<Rightarrow> map_get (latinToCyrillicMap maps) k')
   \<and> cyrillicToLatin = cyrillicToLatinMap (fold setBoth LATIN_CYRILLIC_MAP emptyMaps)
   \<and> map_get cyrillicToLatin [cyr_ha] = Some (ascii ''h'')
   \<and> map_get cyrillicToLatin [cyr_tse] = Some (ascii ''c'')
   \<and> map_get cyrillicToLatin [cyr_ve] = Some (ascii ''w'')
   \<and> map_get cyrillicToLatin [cyr_ka] = Some (ascii ''q'')"
proof -
  have "map_get cyrillicToLatin [cyr_ha] = Some (ascii ''h'')"
    "map_get cyrillicToLatin [cyr_tse] = Some (ascii ''c'')"
    "map_get cyrillicToLatin [cyr_ve] = Some (ascii ''w'')"
    "map_get cyrillicToLatin [cyr_ka] = Some (ascii ''q'')"
    by (simp_all add: cyrillicToLatin_value map_get_def)
  then show ?thesis
    using fold_setBoth_cyrillicToLatin [of t maps k]
      fold_setBoth_latinToCyrillic [of t maps k']
    by (simp add: cyrillicToLatin_def buildLookupMaps_def)
qed

section \<open>The Uzbek extras\<close>



section \<open>The soft sign in the Uzbek reverse direction\<close>

lemma scanLoop_missing:
  assumes "i < length text" "findKey keys text i = Some key" "map_get index key = None"
  shows "scanLoop keys index text i result = Some (Inl TypeError)"
  using assms by (subst scanLoop.simps) simp

lemma substring_shift:
  "substring (pre @ text) (length pre + i) (length pre + (i + n)) = substring text i (i + n)"
  by (simp add: substring_def)

lemma findKey_shift:
  "findKey keys (pre @ text) (length pre + i) = findKey keys text i"
  by (simp add: findKey_def substring_shift add.assoc)

lemma key_advances:
  assumes "[] \<notin> set keys" "findKey keys text i = Some key" "i < length text"
  shows "length text - (i + length key) < length text - i"
proof -
  from assms(1,2) have "key \<noteq> []" by (auto dest: findKey_Some_mem)
  then have "0 < length key" by simp
  with assms(3) show ?thesis by arith
qed

lemma scanLoop_shift:
  assumes ne: "[] \<notin> set keys"
  shows "scanLoop keys index (pre @ text) (length pre + i) result =
         scanLoop keys index text i result"
proof (induction "length text - i" arbitrary: i result rule: less_induct)
  case less
  show ?case
  proof (cases "i < length text")
    case False
    then show ?thesis by (simp add: scanLoop_done)
  next
    case inside: True
    then have inside': "length pre + i < length (pre @ text)" by simp
    show ?thesis
    proof (cases "findKey keys text i")
      case None
      have "length text - (i + 1) < length text - i" using inside by simp
      from less [OF this, of "result @ [text ! i]"] show ?thesis
        using inside None
        by (simp add: scanLoop_pass_step [OF inside'] scanLoop_pass_step [OF inside]
            findKey_shift nth_append add.assoc)
    next
      case (Some key)
      note adv = key_advances [OF ne Some inside]
      show ?thesis
      proof (cases "map_get index key")
        case None
        with Some inside inside' show ?thesis
          by (simp add: scanLoop_missing findKey_shift)
      next
        case (Some r)
        from less [OF adv] show ?thesis
          using \<open>findKey keys text i = Some key\<close> Some
          by (simp add: scanLoop_match_step [OF inside', of keys key index r]
              scanLoop_match_step [OF inside, of keys key index r]
              findKey_shift substring_shift add.assoc)
      qed
    qed
  qed
qed

lemma scanLoop_result_prefix:
  assumes ne: "[] \<notin> set keys"
    and run: "scanLoop keys index text i result = Some (Inr out)"
  shows "scanLoop keys index text i (r @ result) = Some (Inr (r @ out))"
  using run
proof (induction "length text - i" arbitrary: i result rule: less_induct)
  case less
  show ?case
  proof (cases "i < length text")
    case False
    with less.prems show ?thesis by (simp add: scanLoop_done)
  next
    case inside: True
    show ?thesis
    proof (cases "findKey keys text i")
      case None
      have "length text - (i + 1) < length text - i" using inside by simp
      from less.hyps [OF this, of "result @ [text ! i]"] less.prems show ?thesis
        by (simp add: scanLoop_pass_step [OF inside None])
    next
      case (Some key)
      note adv = key_advances [OF ne Some inside]
      show ?thesis
      proof (cases "map_get index key")
        case None
        with Some inside less.prems show ?thesis
          by (simp add: scanLoop_missing)
      next
        case (Some v)
        from less.hyps [OF adv] less.prems show ?thesis
          by (simp add: scanLoop_match_step [OF inside \<open>findKey keys text i = Some key\<close> Some])
      qed
    qed
  qed
qed

lemma substring_within:
  assumes "i + n \<le> length xs"
  shows "substring (xs @ zs) i (i + n) = substring xs i (i + n)"
  using assms by (simp add: substring_def)

lemma match_within:
  assumes "findKey keys xs i = Some key"
  shows "i + length key \<le> length xs \<or> length xs < i"
proof -
  have "length (toLowerCase (substring xs i (i + length key))) = length key"
    using findKey_Some_match [OF assms] by simp
  then have "min (length xs - i) (length key) = length key"
    by (simp add: toLowerCase_def substring_def)
  then show ?thesis by arith
qed

lemma chunk_boundary:
  assumes inside: "i < length xs"
    and late: "\<forall>j. 0 < j \<and> j < length k \<longrightarrow> k ! j \<noteq> lowerUnit c"
  shows "(toLowerCase (substring (xs @ c # ys) i (i + length k)) = k) =
         (toLowerCase (substring xs i (i + length k)) = k)"
proof (cases "i + length k \<le> length xs")
  case True
  then show ?thesis by (simp add: substring_within)
next
  case False
  let ?j = "length xs - i"
  from False inside have j: "0 < ?j" "?j < length k" by simp_all
  have short: "toLowerCase (substring xs i (i + length k)) \<noteq> k"
  proof
    assume "toLowerCase (substring xs i (i + length k)) = k"
    then have "length (toLowerCase (substring xs i (i + length k))) = length k" by simp
    then have "min (length xs - i) (length k) = length k"
      by (simp add: toLowerCase_def substring_def)
    with False inside show False by arith
  qed
  have "toLowerCase (substring (xs @ c # ys) i (i + length k)) ! ?j = lowerUnit c"
    using j inside by (simp add: toLowerCase_def substring_def nth_append)
  with late j have "toLowerCase (substring (xs @ c # ys) i (i + length k)) \<noteq> k"
    by metis
  with short show ?thesis by simp
qed

lemma findKey_boundary:
  assumes "i < length xs"
    and "\<forall>k\<in>set keys. \<forall>j. 0 < j \<and> j < length k \<longrightarrow> k ! j \<noteq> lowerUnit c"
  shows "findKey keys (xs @ c # ys) i = findKey keys xs i"
  unfolding findKey_def
  using assms by (intro find_cong refl chunk_boundary) auto

lemma scanLoop_boundary:
  assumes ne: "[] \<notin> set keys"
    and late: "\<forall>k\<in>set keys. \<forall>j. 0 < j \<and> j < length k \<longrightarrow> k ! j \<noteq> lowerUnit c"
    and le: "i \<le> length xs"
    and run: "scanLoop keys index xs i r = Some (Inr a)"
  shows "scanLoop keys index (xs @ c # ys) i r =
         scanLoop keys index (xs @ c # ys) (length xs) a"
  using le run
proof (induction "length xs - i" arbitrary: i r rule: less_induct)
  case less
  show ?case
  proof (cases "i < length xs")
    case False
    with less.prems show ?thesis by (simp add: scanLoop_done)
  next
    case inside: True
    then have inside': "i < length (xs @ c # ys)" by simp
    note same = findKey_boundary [OF inside late, of ys]
    show ?thesis
    proof (cases "findKey keys xs i")
      case None
      have "length xs - (i + 1) < length xs - i" "i + 1 \<le> length xs" using inside by simp_all
      from less.hyps [OF this, of "r @ [xs ! i]"] less.prems(2) show ?thesis
        using None inside
        by (simp add: scanLoop_pass_step [OF inside None]
            scanLoop_pass_step [OF inside', of keys] same nth_append)
    next
      case (Some key)
      note adv = key_advances [OF ne Some inside]
      from match_within [OF Some] inside have fits: "i + length key \<le> length xs" by simp
      show ?thesis
      proof (cases "map_get index key")
        case None
        with Some inside less.prems(2) show ?thesis
          by (simp add: scanLoop_missing)
      next
        case (Some v)
        from less.hyps [OF adv fits] less.prems(2) show ?thesis
          using \<open>findKey keys xs i = Some key\<close> Some
          by (simp add: scanLoop_match_step [OF inside, of keys key index v]
              scanLoop_match_step [OF inside', of keys key index v]
              same substring_within [OF fits])
      qed
    qed
  qed
qed

lemma uzbek_soft_sign_late:
  "\<forall>k\<in>set uzbek_sortedCyrillicKeys. \<forall>j. 0 < j \<and> j < length k \<longrightarrow> k ! j \<noteq> cyr_soft_sign"
  by (auto simp: uzbek_sortedCyrillicKeys_value less_Suc_eq)

lemma uzbek_soft_sign_key:
  assumes "lowerUnit c = cyr_soft_sign"
  shows "findKey uzbek_sortedCyrillicKeys (c # ys) 0 = Some [cyr_soft_sign]"
  using assms
  by (simp add: findKey_def uzbek_sortedCyrillicKeys_value substring_def toLowerCase_def
      take_Cons')

lemma uzbek_soft_sign_value: "map_get uzbek_cyrillicToLatin [cyr_soft_sign] = Some []"
  by (simp add: uzbek_cyrillicToLatin_value map_get_def)

lemma uzbek_soft_sign_dropped:
  assumes c: "lowerUnit c = cyr_soft_sign"
    and xs: "uzbekCyrillicToLatin xs = Some (Inr a)"
    and ys: "uzbekCyrillicToLatin ys = Some (Inr b)"
  shows "uzbekCyrillicToLatin (xs @ c # ys) = Some (Inr (a @ b))"
proof -
  let ?K = uzbek_sortedCyrillicKeys and ?M = uzbek_cyrillicToLatin
  let ?t = "xs @ c # ys"
  note ne = uzbek_sortedCyrillicKeys_nonempty
  have late: "\<forall>k\<in>set ?K. \<forall>j. 0 < j \<and> j < length k \<longrightarrow> k ! j \<noteq> lowerUnit c"
    using uzbek_soft_sign_late c by simp
  have "scanLoop ?K ?M ?t 0 [] = scanLoop ?K ?M ?t (length xs) a"
    using xs by (intro scanLoop_boundary [OF ne late]) (simp_all add: uzbekCyrillicToLatin_def)
  also have "\<dots> = scanLoop ?K ?M ?t (length xs + 1) a"
  proof -
    have key: "findKey ?K ?t (length xs) = Some [cyr_soft_sign]"
      using findKey_shift [of ?K xs "c # ys" 0] uzbek_soft_sign_key [OF c] by simp
    have "length xs < length ?t" by simp
    from scanLoop_match_step [OF this key uzbek_soft_sign_value, of a]
    show ?thesis by (simp add: matchCase_def)
  qed
  also have "\<dots> = scanLoop ?K ?M ys 0 a"
    using scanLoop_shift [OF ne, of ?M "xs @ [c]" ys 0 a] by simp
  also have "\<dots> = Some (Inr (a @ b))"
    using scanLoop_result_prefix [OF ne, of ?M ys 0 "[]" b a] ys
    by (simp add: uzbekCyrillicToLatin_def)
  finally show ?thesis by (simp add: uzbekCyrillicToLatin_def)
qed

lemma uzbek_soft_sign_alone:
  "uzbekCyrillicToLatin [cyr_soft_sign] = Some (Inr [])"
  by code_simp

lemma uzbek_cap_soft_sign_alone:
  "uzbekCyrillicToLatin [cyr_cap_soft_sign] = Some (Inr [])"
  by code_simp

lemma uzbek_hard_sign_alone:
  "uzbekCyrillicToLatin [cyr_hard_sign] = Some (Inr (ascii [CHR 0x27]))"
  by code_simp

text \<open>
  Claim C10.  The Uzbek reverse converter erases the soft sign.  The target of the key
  U+044C in the reverse map is the empty string, and the converter maps the soft sign
  alone, lower case (U+044C) or upper case (U+042C), to the empty string.  In any
  input, an occurrence of either between a text \<open>xs\<close> and a text \<open>ys\<close> is consumed and
  adds nothing: the output is the output for \<open>xs\<close> followed by the output for \<open>ys\<close>.
  The hard sign (U+044A) is not erased: the main table gives it the apostrophe, and the
  extra with the empty target is not inserted.
\<close>

theorem uzbek_soft_sign_erased:
  "map_get uzbek_cyrillicToLatin [cyr_soft_sign] = Some []
   \<and> uzbekCyrillicToLatin [cyr_soft_sign] = Some (Inr [])
   \<and> uzbekCyrillicToLatin [cyr_cap_soft_sign] = Some (Inr [])
   \<and> (\<exists>a b. uzbekCyrillicToLatin xs = Some (Inr a)
          \<and> uzbekCyrillicToLatin ys = Some (Inr b)
          \<and> uzbekCyrillicToLatin (xs @ cyr_soft_sign # ys) = Some (Inr (a @ b))
          \<and> uzbekCyrillicToLatin (xs @ cyr_cap_soft_sign # ys) = Some (Inr (a @ b)))
   \<and> map_get uzbek_cyrillicToLatin [cyr_hard_sign] = Some (ascii [CHR 0x27])
   \<and> uzbekCyrillicToLatin [cyr_hard_sign] = Some (Inr (ascii [CHR 0x27]))"
proof -
  obtain a where a: "uzbekCyrillicToLatin xs = Some (Inr a)"
    using uzbekCyrillicToLatin_returns by blast
  obtain b where b: "uzbekCyrillicToLatin ys = Some (Inr b)"
    using uzbekCyrillicToLatin_returns by blast
  have low: "lowerUnit cyr_soft_sign = cyr_soft_sign"
    "lowerUnit cyr_cap_soft_sign = cyr_soft_sign"
    by (simp_all add: lowerUnit_def)
  have "uzbekCyrillicToLatin (xs @ cyr_soft_sign # ys) = Some (Inr (a @ b))"
    "uzbekCyrillicToLatin (xs @ cyr_cap_soft_sign # ys) = Some (Inr (a @ b))"
    using uzbek_soft_sign_dropped [OF low(1) a b] uzbek_soft_sign_dropped [OF low(2) a b]
    by simp_all
  with a b have mid: "\<exists>a b. uzbekCyrillicToLatin xs = Some (Inr a)
          \<and> uzbekCyrillicToLatin ys = Some (Inr b)
          \<and> uzbekCyrillicToLatin (xs @ cyr_soft_sign # ys) = Some (Inr (a @ b))
          \<and> uzbekCyrillicToLatin (xs @ cyr_cap_soft_sign # ys) = Some (Inr (a @ b))"
    by blast
  have "map_get uzbek_cyrillicToLatin [cyr_hard_sign] = Some (ascii [CHR 0x27])"
    by (simp add: uzbek_cyrillicToLatin_value map_get_def)
  with mid show ?thesis
    using uzbek_soft_sign_value uzbek_soft_sign_alone uzbek_cap_soft_sign_alone
      uzbek_hard_sign_alone
    by simp
qed

section \<open>The Uzbek examples of the product documentation\<close>

lemma uzbek_salom:
  "uzbekLatinToCyrillic (ascii ''salom'') = Some (Inr [cyr_es, cyr_a, cyr_el, cyr_o, cyr_em])"
  by code_simp

lemma uzbek_rahmat:
  "uzbekLatinToCyrillic (ascii ''rahmat'') =
     Some (Inr [cyr_er, cyr_a, cyr_ha_descender, cyr_em, cyr_a, cyr_te])"
  by code_simp

text \<open>
  Claim C6.  The two Uzbek examples of the product documentation.  The code returns the
  documented word for \<open>salom\<close>.  For \<open>rahmat\<close> it returns the word with the letter
  U+04B3 (ha with descender) in third place, because the Uzbek table maps \<open>h\<close> to that
  letter; the documentation shows U+0445 (ha) there, which the code does not return.
\<close>

theorem uzbek_examples_evaluated:
  "uzbekLatinToCyrillic (ascii ''salom'') = Some (Inr [cyr_es, cyr_a, cyr_el, cyr_o, cyr_em])
   \<and> uzbekLatinToCyrillic (ascii ''rahmat'') =
       Some (Inr [cyr_er, cyr_a, cyr_ha_descender, cyr_em, cyr_a, cyr_te])
   \<and> uzbekLatinToCyrillic (ascii ''rahmat'') \<noteq>
       Some (Inr [cyr_er, cyr_a, cyr_ha, cyr_em, cyr_a, cyr_te])"
  using uzbek_salom uzbek_rahmat by simp

section \<open>Lookup in the converter registry\<close>

lemma registerConverter_lookup:
  "map_of (registerConverter c reg) ty = (if conv_id c = ty then Some c else map_of reg ty)"
  by (simp add: registerConverter_def update_conv')

lemma fold_registerConverter_lookup:
  "map_of (fold registerConverter cs reg) ty =
     (case find (\<lambda>c. conv_id c = ty) (rev cs) of
        Some c \<Rightarrow> Some c
      | None \<Rightarrow> map_of reg ty)"
proof (induction cs arbitrary: reg)
  case Nil
  show ?case by simp
next
  case (Cons c cs)
  have "map_of (fold registerConverter (c # cs) reg) ty =
        map_of (fold registerConverter cs (registerConverter c reg)) ty"
    by simp
  also have "\<dots> = (case find (\<lambda>c. conv_id c = ty) (rev cs) of
        Some c \<Rightarrow> Some c
      | None \<Rightarrow> map_of (registerConverter c reg) ty)"
    by (rule Cons.IH)
  also have "\<dots> = (case find (\<lambda>c. conv_id c = ty) (rev (c # cs)) of
        Some c \<Rightarrow> Some c
      | None \<Rightarrow> map_of reg ty)"
    by (simp add: registerConverter_lookup find_snoc split: option.split)
  finally show ?case .
qed

lemma never_registered:
  "map_of (fold registerConverter cs []) ty = None \<longleftrightarrow> ty \<notin> conv_id ` set cs"
proof -
  have "map_of (fold registerConverter cs []) ty = None \<longleftrightarrow>
        find (\<lambda>c. conv_id c = ty) (rev cs) = None"
    by (simp add: fold_registerConverter_lookup split: option.split)
  also have "\<dots> \<longleftrightarrow> ty \<notin> conv_id ` set cs"
    by (auto simp: find_None_iff)
  finally show ?thesis .
qed

lemma ids_distinct:
  "ascii ''uz-latn-to-uz-cyrl'' \<noteq> ascii ''uz-cyrl-to-uz-latn''"
  "ascii ''cyrillic-to-latin'' \<noteq> ascii ''uz-cyrl-to-uz-latn''"
  "ascii ''cyrillic-to-latin'' \<noteq> ascii ''uz-latn-to-uz-cyrl''"
  "ascii ''latin-to-cyrillic'' \<noteq> ascii ''uz-cyrl-to-uz-latn''"
  "ascii ''latin-to-cyrillic'' \<noteq> ascii ''uz-latn-to-uz-cyrl''"
  "ascii ''latin-to-cyrillic'' \<noteq> ascii ''cyrillic-to-latin''"
  "ascii ''not-a-real-id'' \<noteq> ascii ''uz-cyrl-to-uz-latn''"
  "ascii ''not-a-real-id'' \<noteq> ascii ''uz-latn-to-uz-cyrl''"
  "ascii ''not-a-real-id'' \<noteq> ascii ''cyrillic-to-latin''"
  "ascii ''not-a-real-id'' \<noteq> ascii ''latin-to-cyrillic''"
  by (simp_all add: ascii_def)

lemma convert_builtin:
  "convert converters text ty =
    (if ty = ascii ''uz-cyrl-to-uz-latn'' then uzbekCyrillicToLatin text
     else if ty = ascii ''uz-latn-to-uz-cyrl'' then uzbekLatinToCyrillic text
     else if ty = ascii ''cyrillic-to-latin'' then cyrillicToLatinConvert text
     else if ty = ascii ''latin-to-cyrillic'' then latinToCyrillicConvert text
     else Some (Inl (UnknownConverter ty)))"
  using ids_distinct
  by (auto simp: convert_def converters_def builtinConverters_def registerConverter_lookup)

lemma isConversionType_builtin:
  "isConversionType converters ty \<longleftrightarrow>
     ty \<in> {ascii ''latin-to-cyrillic'', ascii ''cyrillic-to-latin'',
            ascii ''uz-latn-to-uz-cyrl'', ascii ''uz-cyrl-to-uz-latn''}"
  using ids_distinct
  by (auto simp: isConversionType_def converters_def builtinConverters_def
      registerConverter_lookup)

lemma convert_builtin_fails_iff:
  "convert converters text ty = Some (Inl e) \<longleftrightarrow>
     e = UnknownConverter ty
     \<and> ty \<notin> {ascii ''latin-to-cyrillic'', ascii ''cyrillic-to-latin'',
               ascii ''uz-latn-to-uz-cyrl'', ascii ''uz-cyrl-to-uz-latn''}"
  using latinToCyrillicConvert_returns [of "text"] cyrillicToLatinConvert_returns [of "text"]
    uzbekLatinToCyrillic_returns [of "text"] uzbekCyrillicToLatin_returns [of "text"]
  by (auto simp: convert_builtin)

text \<open>
  Claim C7.  \<open>convert\<close> fails with \<open>UnknownConverter\<close> when the identifier has no entry
  in the registry, and otherwise returns what the registered converter returns.  After
  any sequence of registrations, an identifier has no entry exactly when no
  registration used it.  In the registry the module builds when it is loaded, the
  registered identifiers are the four built-in ones; \<open>convert\<close> fails with
  \<open>UnknownConverter\<close> exactly for the other identifiers, and for a built-in identifier
  it returns the output string of the corresponding transliteration function.  For the
  text \<open>x\<close> and the identifier \<open>not-a-real-id\<close> it fails with \<open>UnknownConverter\<close>.
\<close>

theorem convert_unknown_converter:
  "(map_of reg ty = None \<longrightarrow> convert reg text ty = Some (Inl (UnknownConverter ty)))
   \<and> (map_of reg ty = Some c \<longrightarrow> convert reg text ty = conv_convert c text)
   \<and> (map_of (fold registerConverter cs []) ty = None \<longleftrightarrow> ty \<notin> conv_id ` set cs)
   \<and> (isConversionType converters ty \<longleftrightarrow>
        ty \<in> {ascii ''latin-to-cyrillic'', ascii ''cyrillic-to-latin'',
               ascii ''uz-latn-to-uz-cyrl'', ascii ''uz-cyrl-to-uz-latn''})
   \<and> (convert converters text ty = Some (Inl (UnknownConverter ty)) \<longleftrightarrow>
        \<not> isConversionType converters ty)
   \<and> (isConversionType converters ty \<longrightarrow>
        (\<exists>out. convert converters text ty = Some (Inr out)))
   \<and> convert converters text (ascii ''latin-to-cyrillic'') = latinToCyrillicConvert text
   \<and> convert converters text (ascii ''cyrillic-to-latin'') = cyrillicToLatinConvert text
   \<and> convert converters text (ascii ''uz-latn-to-uz-cyrl'') = uzbekLatinToCyrillic text
   \<and> convert converters text (ascii ''uz-cyrl-to-uz-latn'') = uzbekCyrillicToLatin text
   \<and> convert converters (ascii ''x'') (ascii ''not-a-real-id'') =
       Some (Inl (UnknownConverter (ascii ''not-a-real-id'')))"
proof -
  have fails: "convert converters text ty = Some (Inl (UnknownConverter ty)) \<longleftrightarrow>
        \<not> isConversionType converters ty"
    using convert_builtin_fails_iff [of "text" ty "UnknownConverter ty"]
    by (simp add: isConversionType_builtin)
  have returns: "\<exists>out. convert converters text ty = Some (Inr out)"
    if "isConversionType converters ty"
    using that latinToCyrillicConvert_returns [of "text"]
      cyrillicToLatinConvert_returns [of "text"]
      uzbekLatinToCyrillic_returns [of "text"] uzbekCyrillicToLatin_returns [of "text"]
    by (auto simp: isConversionType_builtin convert_builtin)
  have general: "map_of reg ty = None \<longrightarrow> convert reg text ty = Some (Inl (UnknownConverter ty))"
    "map_of reg ty = Some c \<longrightarrow> convert reg text ty = conv_convert c text"
    by (simp_all add: convert_def)
  have builtin: "convert converters text (ascii ''latin-to-cyrillic'') = latinToCyrillicConvert text"
    "convert converters text (ascii ''cyrillic-to-latin'') = cyrillicToLatinConvert text"
    "convert converters text (ascii ''uz-latn-to-uz-cyrl'') = uzbekLatinToCyrillic text"
    "convert converters text (ascii ''uz-cyrl-to-uz-latn'') = uzbekCyrillicToLatin text"
    "convert converters (ascii ''x'') (ascii ''not-a-real-id'') =
       Some (Inl (UnknownConverter (ascii ''not-a-real-id'')))"
    using ids_distinct by (simp_all add: convert_builtin)
  show ?thesis
    using fails returns never_registered [of cs ty] isConversionType_builtin [of ty]
      general builtin
    by blast
qed

theorem convert_unknown_converter_witness:
  "map_of converters (ascii ''not-a-real-id'') = None
   \<and> convert converters (ascii ''x'') (ascii ''not-a-real-id'') =
       Some (Inl (UnknownConverter (ascii ''not-a-real-id'')))
   \<and> \<not> isConversionType converters (ascii ''not-a-real-id'')
   \<and> isConversionType converters (ascii ''latin-to-cyrillic'')
   \<and> (\<exists>out. convert converters (ascii ''x'') (ascii ''latin-to-cyrillic'') = Some (Inr out))"
proof -
  have a: "map_of converters (ascii ''not-a-real-id'') = None"
    using ids_distinct
    by (simp add: converters_def builtinConverters_def registerConverter_lookup)
  have b: "ascii ''latin-to-cyrillic'' \<in> {ascii ''latin-to-cyrillic'', ascii ''cyrillic-to-latin'',
               ascii ''uz-latn-to-uz-cyrl'', ascii ''uz-cyrl-to-uz-latn''}"
    by simp
  have c: "ascii ''not-a-real-id'' \<notin> {ascii ''latin-to-cyrillic'', ascii ''cyrillic-to-latin'',
               ascii ''uz-latn-to-uz-cyrl'', ascii ''uz-cyrl-to-uz-latn''}"
    using ids_distinct by simp
  show ?thesis
    using convert_unknown_converter [of converters "ascii ''not-a-real-id''" "ascii ''x''"]
      convert_unknown_converter [of converters "ascii ''latin-to-cyrillic''" "ascii ''x''"]
      a b c
    by blast
qed

section \<open>Classification by the share of letters\<close>

lemma threshold_iff:
  fixes l t :: nat
  assumes "0 < t"
  shows "(90 \<le> real l / real t * 100) = (9 * t \<le> 10 * l)"
proof -
  have "(90 \<le> real l / real t * 100) = (90 * real t \<le> real l * 100)"
    using assms by (simp add: field_simps)
  also have "\<dots> = (real (90 * t) \<le> real (100 * l))" by (simp add: mult.commute)
  also have "\<dots> = (90 * t \<le> 100 * l)" by (simp only: of_nat_le_iff)
  also have "\<dots> = (9 * t \<le> 10 * l)" by arith
  finally show ?thesis .
qed

lemma analyzeScript_unknown:
  assumes "countLetters text = (l, c)" "l + c = 0"
  shows "analyzeScript text =
     \<lparr>scriptType = Unknown, latinCount = 0, cyrillicCount = 0, totalLetters = 0,
      latinPercentage = 0, cyrillicPercentage = 0\<rparr>"
  using assms by (simp add: analyzeScript_def)

lemma analyzeScript_counted:
  assumes "countLetters text = (l, c)" "0 < l + c"
  shows "analyzeScript text =
     \<lparr>scriptType = (if 90 \<le> real l / real (l + c) * 100 then Latin
                    else if 90 \<le> real c / real (l + c) * 100 then Cyrillic
                    else Mixed),
      latinCount = l, cyrillicCount = c, totalLetters = l + c,
      latinPercentage = real l / real (l + c) * 100,
      cyrillicPercentage = real c / real (l + c) * 100\<rparr>"
  using assms by (simp add: analyzeScript_def Let_def)

lemma count_9_1: "countLetters (ascii ''aaaaaaaaa'' @ [cyr_zhe]) = (9, 1)"
  by code_simp

lemma count_89_11: "countLetters (replicate 89 0x61 @ replicate 11 cyr_zhe) = (89, 11)"
  by code_simp

lemma count_none: "countLetters (ascii ''12 + 3?'') = (0, 0)"
  by code_simp

lemma ranges_disjoint: "inLatinRange u \<Longrightarrow> \<not> inCyrillicRange u"
  by (auto simp: inLatinRange_def inCyrillicRange_def word_le_nat_alt)

lemma surrogates_uncounted:
  "isHighSurrogate u \<Longrightarrow> \<not> inLatinRange u \<and> \<not> inCyrillicRange u"
  "isLowSurrogate u \<Longrightarrow> \<not> inLatinRange u \<and> \<not> inCyrillicRange u"
  by (auto simp: isHighSurrogate_def isLowSurrogate_def inLatinRange_def inCyrillicRange_def
      word_le_nat_alt)

lemma range_test_single:
  "LATIN_RANGE_test [u] = inLatinRange u"
  "CYRILLIC_RANGE_test [u] = inCyrillicRange u"
  by (simp_all add: LATIN_RANGE_test_def CYRILLIC_RANGE_test_def)

lemma range_test_pair:
  assumes "isHighSurrogate u" "isLowSurrogate v"
  shows "\<not> LATIN_RANGE_test [u, v]" "\<not> CYRILLIC_RANGE_test [u, v]"
  using surrogates_uncounted(1) [OF assms(1)] surrogates_uncounted(2) [OF assms(2)]
  by (simp_all add: LATIN_RANGE_test_def CYRILLIC_RANGE_test_def)

lemma fold_countChar:
  "fold countChar cps (l, c) =
     (l + length (filter LATIN_RANGE_test cps),
      c + length (filter (\<lambda>ch. \<not> LATIN_RANGE_test ch \<and> CYRILLIC_RANGE_test ch) cps))"
  by (induction cps arbitrary: l c) simp_all

lemma latin_codePoints:
  "length (filter LATIN_RANGE_test (codePoints text)) = length (filter inLatinRange text)"
proof (induction "text" rule: codePoints.induct)
  case 1
  show ?case by simp
next
  case (2 u)
  show ?case by (simp add: range_test_single)
next
  case (3 u v rest)
  show ?case
  proof (cases "isHighSurrogate u \<and> isLowSurrogate v")
    case True
    then have cp: "codePoints (u # v # rest) = [u, v] # codePoints rest" by simp
    from True surrogates_uncounted(1) [of u] surrogates_uncounted(2) [of v] "3.IH"(1)
    show ?thesis unfolding cp by (simp add: range_test_pair)
  next
    case False
    have cp: "codePoints (u # v # rest) = [u] # codePoints (v # rest)"
      by (simp only: codePoints.simps False if_False)
    have "length (filter LATIN_RANGE_test (codePoints (u # v # rest))) =
          length (filter inLatinRange [u]) +
          length (filter LATIN_RANGE_test (codePoints (v # rest)))"
      unfolding cp by (simp add: range_test_single)
    also have "\<dots> = length (filter inLatinRange [u]) + length (filter inLatinRange (v # rest))"
      by (simp only: "3.IH"(2) [OF False])
    also have "\<dots> = length (filter inLatinRange (u # v # rest))" by simp
    finally show ?thesis .
  qed
qed

lemma cyrillic_codePoints:
  "length (filter (\<lambda>ch. \<not> LATIN_RANGE_test ch \<and> CYRILLIC_RANGE_test ch) (codePoints text)) =
   length (filter inCyrillicRange text)"
proof (induction "text" rule: codePoints.induct)
  case 1
  show ?case by simp
next
  case (2 u)
  show ?case
    using ranges_disjoint [of u] by (auto simp: range_test_single)
next
  case (3 u v rest)
  let ?P = "\<lambda>ch. \<not> LATIN_RANGE_test ch \<and> CYRILLIC_RANGE_test ch"
  show ?case
  proof (cases "isHighSurrogate u \<and> isLowSurrogate v")
    case True
    then have cp: "codePoints (u # v # rest) = [u, v] # codePoints rest" by simp
    from True surrogates_uncounted(1) [of u] surrogates_uncounted(2) [of v] "3.IH"(1)
    show ?thesis unfolding cp by (simp add: range_test_pair)
  next
    case False
    have cp: "codePoints (u # v # rest) = [u] # codePoints (v # rest)"
      by (simp only: codePoints.simps False if_False)
    have "length (filter ?P (codePoints (u # v # rest))) =
          length (filter inCyrillicRange [u]) + length (filter ?P (codePoints (v # rest)))"
      unfolding cp using ranges_disjoint [of u] by (auto simp: range_test_single)
    also have "\<dots> = length (filter inCyrillicRange [u]) +
          length (filter inCyrillicRange (v # rest))"
      by (simp only: "3.IH"(2) [OF False])
    also have "\<dots> = length (filter inCyrillicRange (u # v # rest))" by simp
    finally show ?thesis .
  qed
qed

lemma countLetters_units:
  "countLetters text = (length (filter inLatinRange text), length (filter inCyrillicRange text))"
  by (simp add: countLetters_def fold_countChar latin_codePoints cyrillic_codePoints)

text \<open>
  Claim C8.  For every input string, the two counts of \<open>analyzeScript\<close> are the number
  of code units in the Latin class and the number in the Cyrillic class.  When both
  are zero the result is \<open>Unknown\<close> with all counts and percentages zero.  Otherwise
  the type is \<open>Latin\<close> when the Latin letters are at least 90 percent of the counted
  letters, else \<open>Cyrillic\<close> when the Cyrillic letters are at least 90 percent, else
  \<open>Mixed\<close>; at least 90 percent of the counted letters means that nine times the total
  is at most ten times the count.  With 9 Latin letters and 1 Cyrillic letter the type
  is \<open>Latin\<close>; with 89 and 11 it is \<open>Mixed\<close>.
\<close>

theorem analyzeScript_classification:
  "countLetters text =
     (length (filter inLatinRange text), length (filter inCyrillicRange text))
   \<and> (case countLetters text of (l, c) \<Rightarrow>
        (l + c = 0 \<longrightarrow>
           analyzeScript text =
             \<lparr>scriptType = Unknown, latinCount = 0, cyrillicCount = 0, totalLetters = 0,
              latinPercentage = 0, cyrillicPercentage = 0\<rparr>)
      \<and> (0 < l + c \<longrightarrow>
           analyzeScript text =
             \<lparr>scriptType = (if 90 \<le> real l / real (l + c) * 100 then Latin
                            else if 90 \<le> real c / real (l + c) * 100 then Cyrillic
                            else Mixed),
              latinCount = l, cyrillicCount = c, totalLetters = l + c,
              latinPercentage = real l / real (l + c) * 100,
              cyrillicPercentage = real c / real (l + c) * 100\<rparr>
           \<and> (90 \<le> real l / real (l + c) * 100) = (9 * (l + c) \<le> 10 * l)
           \<and> (90 \<le> real c / real (l + c) * 100) = (9 * (l + c) \<le> 10 * c))
      \<and> (l = 9 \<and> c = 1 \<longrightarrow> scriptType (analyzeScript text) = Latin)
      \<and> (l = 89 \<and> c = 11 \<longrightarrow> scriptType (analyzeScript text) = Mixed))"
proof -
  obtain l c where lc: "countLetters text = (l, c)" by (cases "countLetters text")
  have zero: "analyzeScript text =
             \<lparr>scriptType = Unknown, latinCount = 0, cyrillicCount = 0, totalLetters = 0,
              latinPercentage = 0, cyrillicPercentage = 0\<rparr>" if "l + c = 0"
    using analyzeScript_unknown [OF lc that] .
  have pos: "analyzeScript text =
             \<lparr>scriptType = (if 90 \<le> real l / real (l + c) * 100 then Latin
                            else if 90 \<le> real c / real (l + c) * 100 then Cyrillic
                            else Mixed),
              latinCount = l, cyrillicCount = c, totalLetters = l + c,
              latinPercentage = real l / real (l + c) * 100,
              cyrillicPercentage = real c / real (l + c) * 100\<rparr>" if "0 < l + c"
    using analyzeScript_counted [OF lc that] .
  have thr: "(90 \<le> real l / real (l + c) * 100) = (9 * (l + c) \<le> 10 * l)"
    "(90 \<le> real c / real (l + c) * 100) = (9 * (l + c) \<le> 10 * c)" if "0 < l + c"
    using threshold_iff [OF that, of l] threshold_iff [OF that, of c] by simp_all
  have b1: "scriptType (analyzeScript text) = Latin" if "l = 9 \<and> c = 1"
    using that analyzeScript_counted [OF lc] by simp
  have b2: "scriptType (analyzeScript text) = Mixed" if "l = 89 \<and> c = 11"
    using that analyzeScript_counted [OF lc] by simp
  show ?thesis
  proof (rule conjI)
    show "countLetters text =
      (length (filter inLatinRange text), length (filter inCyrillicRange text))"
      by (rule countLetters_units)
  next
    show "case countLetters text of (l, c) \<Rightarrow>
        (l + c = 0 \<longrightarrow>
           analyzeScript text =
             \<lparr>scriptType = Unknown, latinCount = 0, cyrillicCount = 0, totalLetters = 0,
              latinPercentage = 0, cyrillicPercentage = 0\<rparr>)
      \<and> (0 < l + c \<longrightarrow>
           analyzeScript text =
             \<lparr>scriptType = (if 90 \<le> real l / real (l + c) * 100 then Latin
                            else if 90 \<le> real c / real (l + c) * 100 then Cyrillic
                            else Mixed),
              latinCount = l, cyrillicCount = c, totalLetters = l + c,
              latinPercentage = real l / real (l + c) * 100,
              cyrillicPercentage = real c / real (l + c) * 100\<rparr>
           \<and> (90 \<le> real l / real (l + c) * 100) = (9 * (l + c) \<le> 10 * l)
           \<and> (90 \<le> real c / real (l + c) * 100) = (9 * (l + c) \<le> 10 * c))
      \<and> (l = 9 \<and> c = 1 \<longrightarrow> scriptType (analyzeScript text) = Latin)
      \<and> (l = 89 \<and> c = 11 \<longrightarrow> scriptType (analyzeScript text) = Mixed)"
      unfolding lc prod.case using zero pos thr b1 b2 by blast
  qed
qed

theorem analyzeScript_classification_witness:
  "countLetters (ascii ''aaaaaaaaa'' @ [cyr_zhe]) = (9, 1)
   \<and> scriptType (analyzeScript (ascii ''aaaaaaaaa'' @ [cyr_zhe])) = Latin
   \<and> countLetters (replicate 89 0x61 @ replicate 11 cyr_zhe) = (89, 11)
   \<and> scriptType (analyzeScript (replicate 89 0x61 @ replicate 11 cyr_zhe)) = Mixed
   \<and> countLetters (ascii ''12 + 3?'') = (0, 0)
   \<and> analyzeScript (ascii ''12 + 3?'') =
       \<lparr>scriptType = Unknown, latinCount = 0, cyrillicCount = 0, totalLetters = 0,
        latinPercentage = 0, cyrillicPercentage = 0\<rparr>"
proof -
  have "scriptType (analyzeScript (ascii ''aaaaaaaaa'' @ [cyr_zhe])) = Latin"
    using analyzeScript_classification [of "ascii ''aaaaaaaaa'' @ [cyr_zhe]"]
    by (simp add: count_9_1)
  moreover have "scriptType (analyzeScript (replicate 89 0x61 @ replicate 11 cyr_zhe)) = Mixed"
    using analyzeScript_classification [of "replicate 89 0x61 @ replicate 11 cyr_zhe"]
    by (simp add: count_89_11)
  moreover have "analyzeScript (ascii ''12 + 3?'') =
       \<lparr>scriptType = Unknown, latinCount = 0, cyrillicCount = 0, totalLetters = 0,
        latinPercentage = 0, cyrillicPercentage = 0\<rparr>"
    using analyzeScript_classification [of "ascii ''12 + 3?''"]
    by (simp add: count_none)
  ultimately show ?thesis
    using count_9_1 count_89_11 count_none by simp
qed

section \<open>Case matching in the output of the converters\<close>

lemma scanLoop_head_match:
  assumes ne: "[] \<notin> set keys"
    and nonempty: "text \<noteq> []"
    and key: "findKey keys text 0 = Some key"
    and val: "map_get index key = Some replacement"
    and rest: "scanLoop keys index (drop (length key) text) 0 [] = Some (Inr out)"
  shows "scanLoop keys index text 0 [] =
         Some (Inr (matchCase (take (length key) text) replacement @ out))"
proof -
  let ?n = "length key"
  let ?chunk = "take ?n text"
  from nonempty have inside: "0 < length text" by simp
  from match_within [OF key] have fits: "?n \<le> length text" by simp
  have chunk: "substring text 0 (0 + ?n) = ?chunk" by (simp add: substring_def)
  have "scanLoop keys index text 0 [] =
        scanLoop keys index text (0 + ?n) ([] @ matchCase (substring text 0 (0 + ?n)) replacement)"
    by (rule scanLoop_match_step [OF inside key val])
  also have "\<dots> = scanLoop keys index (?chunk @ drop ?n text) (length ?chunk + 0)
        (matchCase ?chunk replacement)"
    unfolding chunk using fits by (simp add: min_absorb2)
  also have "\<dots> = scanLoop keys index (drop ?n text) 0 (matchCase ?chunk replacement)"
    by (rule scanLoop_shift [OF ne])
  also have "\<dots> = Some (Inr (matchCase ?chunk replacement @ out))"
    using scanLoop_result_prefix [OF ne rest, of "matchCase ?chunk replacement"] by simp
  finally show ?thesis .
qed

lemma scanLoop_head_pass:
  assumes ne: "[] \<notin> set keys"
    and nonempty: "text \<noteq> []"
    and nokey: "findKey keys text 0 = None"
    and rest: "scanLoop keys index (tl text) 0 [] = Some (Inr out)"
  shows "scanLoop keys index text 0 [] = Some (Inr (hd text # out))"
proof -
  from nonempty obtain c cs where tx: "text = c # cs" by (cases "text") auto
  have inside: "0 < length text" using nonempty by simp
  have "scanLoop keys index text 0 [] = scanLoop keys index text (0 + 1) ([] @ [text ! 0])"
    by (rule scanLoop_pass_step [OF inside nokey])
  also have "\<dots> = scanLoop keys index ([c] @ cs) (length [c] + 0) [c]"
    by (simp add: tx)
  also have "\<dots> = scanLoop keys index cs 0 [c]"
    by (rule scanLoop_shift [OF ne])
  also have "\<dots> = Some (Inr ([c] @ out))"
    using scanLoop_result_prefix [OF ne, of index cs 0 "[]" out "[c]"] rest
    by (simp add: tx)
  finally show ?thesis by (simp add: tx)
qed

lemma scan_output_by_chunk:
  assumes ne: "[] \<notin> set keys" and has: "list_all (map_has index) keys"
    and nonempty: "text \<noteq> []"
  shows "(findKey keys text 0 = Some key \<and> map_get index key = Some replacement \<longrightarrow>
           (\<exists>out. scanLoop keys index (drop (length key) text) 0 [] = Some (Inr out)
              \<and> scanLoop keys index text 0 [] =
                  Some (Inr (matchCase (take (length key) text) replacement @ out))))
       \<and> (findKey keys text 0 = None \<longrightarrow>
           (\<exists>out. scanLoop keys index (tl text) 0 [] = Some (Inr out)
              \<and> scanLoop keys index text 0 [] = Some (Inr (hd text # out))))"
proof (intro conjI impI)
  assume a: "findKey keys text 0 = Some key \<and> map_get index key = Some replacement"
  obtain out where out: "scanLoop keys index (drop (length key) text) 0 [] = Some (Inr out)"
    using scanLoop_returns [OF ne has] by blast
  from scanLoop_head_match [OF ne nonempty conjunct1 [OF a] conjunct2 [OF a] out] out
  show "\<exists>out. scanLoop keys index (drop (length key) text) 0 [] = Some (Inr out)
              \<and> scanLoop keys index text 0 [] =
                  Some (Inr (matchCase (take (length key) text) replacement @ out))"
    by blast
next
  assume a: "findKey keys text 0 = None"
  obtain out where out: "scanLoop keys index (tl text) 0 [] = Some (Inr out)"
    using scanLoop_returns [OF ne has] by blast
  from scanLoop_head_pass [OF ne nonempty a out] out
  show "\<exists>out. scanLoop keys index (tl text) 0 [] = Some (Inr out)
              \<and> scanLoop keys index text 0 [] = Some (Inr (hd text # out))"
    by blast
qed

lemma generic_upper_chunk:
  "latinToCyrillicConvert (ascii ''SHCHuka'') = Some (Inr [0x429, cyr_u, cyr_ka, cyr_a])"
  by code_simp

lemma generic_capital_chunk:
  "latinToCyrillicConvert (ascii ''Shchuka'') = Some (Inr [0x429, cyr_u, cyr_ka, cyr_a])"
  by code_simp

lemma generic_inner_capital_chunk:
  "latinToCyrillicConvert (ascii ''sHa'') = Some (Inr [cyr_sha, cyr_a])"
  by code_simp

lemma generic_upper_word:
  "latinToCyrillicConvert (ascii ''PRIVET'') =
     Some (Inr [0x41F, 0x420, 0x418, 0x412, 0x415, 0x422])"
  by code_simp

lemma generic_capital_word:
  "latinToCyrillicConvert (ascii ''Privet'') =
     Some (Inr [0x41F, cyr_er, cyr_i, cyr_ve, cyr_ie, cyr_te])"
  by code_simp

lemma generic_reverse_capital:
  "cyrillicToLatinConvert [0x429, cyr_u, cyr_ka, cyr_a] = Some (Inr (ascii ''SHCHuqa''))"
  by code_simp

lemma uzbek_capital_chunk:
  "uzbekLatinToCyrillic (ascii ''Shahar'') =
     Some (Inr [0x428, cyr_a, cyr_ha_descender, cyr_a, cyr_er])"
  by code_simp

lemma uzbek_upper_word:
  "uzbekLatinToCyrillic (ascii ''SHAHAR'') = Some (Inr [0x428, 0x410, 0x4B2, 0x410, 0x420])"
  by code_simp

lemma uzbek_reverse_capital:
  "uzbekCyrillicToLatin [0x428, cyr_a, cyr_ha_descender, cyr_a, cyr_er] =
     Some (Inr (ascii ''SHahar''))"
  by code_simp

lemma generic_uka:
  "latinToCyrillicConvert (ascii ''uka'') = Some (Inr [cyr_u, cyr_ka, cyr_a])"
  by code_simp

lemma latinToCyrillicConvert_by_chunk:
  assumes "text \<noteq> []"
  shows "(findKey sortedLatinKeys text 0 = Some key \<and> map_get latinToCyrillic key = Some replacement \<longrightarrow>
        (\<exists>out. latinToCyrillicConvert (drop (length key) text) = Some (Inr out)
           \<and> latinToCyrillicConvert text =
               Some (Inr (matchCase (take (length key) text) replacement @ out))))
     \<and> (findKey sortedLatinKeys text 0 = None \<longrightarrow>
        (\<exists>out. latinToCyrillicConvert (tl text) = Some (Inr out)
           \<and> latinToCyrillicConvert text = Some (Inr (hd text # out))))"
  unfolding latinToCyrillicConvert_def
  by (rule scan_output_by_chunk [OF sortedLatinKeys_nonempty _ assms])
    (simp add: sortedLatinKeys_def has_getSortedKeys)

lemma cyrillicToLatinConvert_by_chunk:
  assumes "text \<noteq> []"
  shows "(findKey sortedCyrillicKeys text 0 = Some key \<and> map_get cyrillicToLatin key = Some replacement \<longrightarrow>
        (\<exists>out. cyrillicToLatinConvert (drop (length key) text) = Some (Inr out)
           \<and> cyrillicToLatinConvert text =
               Some (Inr (matchCase (take (length key) text) replacement @ out))))
     \<and> (findKey sortedCyrillicKeys text 0 = None \<longrightarrow>
        (\<exists>out. cyrillicToLatinConvert (tl text) = Some (Inr out)
           \<and> cyrillicToLatinConvert text = Some (Inr (hd text # out))))"
  unfolding cyrillicToLatinConvert_def
  by (rule scan_output_by_chunk [OF sortedCyrillicKeys_nonempty _ assms])
    (simp add: sortedCyrillicKeys_def has_getSortedKeys)

lemma uzbekLatinToCyrillic_by_chunk:
  assumes "text \<noteq> []"
  shows "(findKey uzbek_sortedLatinKeys text 0 = Some key \<and> map_get uzbek_latinToCyrillic key = Some replacement \<longrightarrow>
        (\<exists>out. uzbekLatinToCyrillic (drop (length key) text) = Some (Inr out)
           \<and> uzbekLatinToCyrillic text =
               Some (Inr (matchCase (take (length key) text) replacement @ out))))
     \<and> (findKey uzbek_sortedLatinKeys text 0 = None \<longrightarrow>
        (\<exists>out. uzbekLatinToCyrillic (tl text) = Some (Inr out)
           \<and> uzbekLatinToCyrillic text = Some (Inr (hd text # out))))"
  unfolding uzbekLatinToCyrillic_def
  by (rule scan_output_by_chunk [OF uzbek_sortedLatinKeys_nonempty _ assms])
    (simp add: uzbek_sortedLatinKeys_def has_getSortedKeys)

lemma uzbekCyrillicToLatin_by_chunk:
  assumes "text \<noteq> []"
  shows "(findKey uzbek_sortedCyrillicKeys text 0 = Some key \<and> map_get uzbek_cyrillicToLatin key = Some replacement \<longrightarrow>
        (\<exists>out. uzbekCyrillicToLatin (drop (length key) text) = Some (Inr out)
           \<and> uzbekCyrillicToLatin text =
               Some (Inr (matchCase (take (length key) text) replacement @ out))))
     \<and> (findKey uzbek_sortedCyrillicKeys text 0 = None \<longrightarrow>
        (\<exists>out. uzbekCyrillicToLatin (tl text) = Some (Inr out)
           \<and> uzbekCyrillicToLatin text = Some (Inr (hd text # out))))"
  unfolding uzbekCyrillicToLatin_def
  by (rule scan_output_by_chunk [OF uzbek_sortedCyrillicKeys_nonempty _ assms])
    (simp add: uzbek_sortedCyrillicKeys_def has_getSortedKeys)

text \<open>
  Claim C2.  The case matching rule.  For every matched chunk \<open>source\<close> and target token
  \<open>target\<close>: when the chunk differs from its lower-cased form and equals its upper-cased
  form, the result is the target fully upper-cased; otherwise, when the chunk has a
  first character and that character is upper case, the result is the target with its
  first character upper-cased and the rest unchanged; otherwise the result is the
  target as it is.  Every transducer applies the rule chunk by chunk: when a key
  matches at the start of a non-empty text, the output of each of the four converters
  is \<open>matchCase\<close> of the matched chunk and the key's target, followed by the converter's
  output for the rest of the text; when no key matches there, the output is the first
  character followed by the output for the rest.  So \<open>SHCHuka\<close> and \<open>Shchuka\<close> both
  give the capital letter U+0429 followed by the lower-case rest, \<open>sHa\<close> gives lower
  case only, \<open>PRIVET\<close> is upper case throughout and \<open>Privet\<close> has a capital first letter
  only; in the reverse direction the capital letter U+0429, a chunk that equals its
  own upper-case form, gives \<open>SHCH\<close>; and the Uzbek pair behaves alike.
\<close>

theorem case_matching_rule:
  "matchCase source target =
    (if source \<noteq> toLowerCase source \<and> source = toUpperCase source then toUpperCase target
     else if source \<noteq> [] \<and> isUpperCase [hd source]
       then toUpperCase (take 1 target) @ drop 1 target
     else target)
   \<and> (i < length text \<and> findKey keys text i = Some key \<and> map_get index key = Some replacement
        \<longrightarrow> scanLoop keys index text i result =
            scanLoop keys index text (i + length key)
              (result @ matchCase (substring text i (i + length key)) replacement))
   \<and> latinToCyrillicConvert text = scanLoop sortedLatinKeys latinToCyrillic text 0 []
   \<and> cyrillicToLatinConvert text = scanLoop sortedCyrillicKeys cyrillicToLatin text 0 []
   \<and> uzbekLatinToCyrillic text = scanLoop uzbek_sortedLatinKeys uzbek_latinToCyrillic text 0 []
   \<and> uzbekCyrillicToLatin text = scanLoop uzbek_sortedCyrillicKeys uzbek_cyrillicToLatin text 0 []
   \<and> (text \<noteq> [] \<and> findKey sortedLatinKeys text 0 = Some key \<and> map_get latinToCyrillic key = Some replacement \<longrightarrow>
        (\<exists>out. latinToCyrillicConvert (drop (length key) text) = Some (Inr out)
           \<and> latinToCyrillicConvert text =
               Some (Inr (matchCase (take (length key) text) replacement @ out))))
   \<and> (text \<noteq> [] \<and> findKey sortedCyrillicKeys text 0 = Some key \<and> map_get cyrillicToLatin key = Some replacement \<longrightarrow>
        (\<exists>out. cyrillicToLatinConvert (drop (length key) text) = Some (Inr out)
           \<and> cyrillicToLatinConvert text =
               Some (Inr (matchCase (take (length key) text) replacement @ out))))
   \<and> (text \<noteq> [] \<and> findKey uzbek_sortedLatinKeys text 0 = Some key \<and> map_get uzbek_latinToCyrillic key = Some replacement \<longrightarrow>
        (\<exists>out. uzbekLatinToCyrillic (drop (length key) text) = Some (Inr out)
           \<and> uzbekLatinToCyrillic text =
               Some (Inr (matchCase (take (length key) text) replacement @ out))))
   \<and> (text \<noteq> [] \<and> findKey uzbek_sortedCyrillicKeys text 0 = Some key \<and> map_get uzbek_cyrillicToLatin key = Some replacement \<longrightarrow>
        (\<exists>out. uzbekCyrillicToLatin (drop (length key) text) = Some (Inr out)
           \<and> uzbekCyrillicToLatin text =
               Some (Inr (matchCase (take (length key) text) replacement @ out))))
   \<and> (text \<noteq> [] \<and> findKey sortedLatinKeys text 0 = None \<longrightarrow>
        (\<exists>out. latinToCyrillicConvert (tl text) = Some (Inr out)
           \<and> latinToCyrillicConvert text = Some (Inr (hd text # out))))
   \<and> (text \<noteq> [] \<and> findKey sortedCyrillicKeys text 0 = None \<longrightarrow>
        (\<exists>out. cyrillicToLatinConvert (tl text) = Some (Inr out)
           \<and> cyrillicToLatinConvert text = Some (Inr (hd text # out))))
   \<and> (text \<noteq> [] \<and> findKey uzbek_sortedLatinKeys text 0 = None \<longrightarrow>
        (\<exists>out. uzbekLatinToCyrillic (tl text) = Some (Inr out)
           \<and> uzbekLatinToCyrillic text = Some (Inr (hd text # out))))
   \<and> (text \<noteq> [] \<and> findKey uzbek_sortedCyrillicKeys text 0 = None \<longrightarrow>
        (\<exists>out. uzbekCyrillicToLatin (tl text) = Some (Inr out)
           \<and> uzbekCyrillicToLatin text = Some (Inr (hd text # out))))
   \<and> latinToCyrillicConvert (ascii ''SHCHuka'') = Some (Inr [0x429, cyr_u, cyr_ka, cyr_a])
   \<and> latinToCyrillicConvert (ascii ''Shchuka'') = Some (Inr [0x429, cyr_u, cyr_ka, cyr_a])
   \<and> latinToCyrillicConvert (ascii ''sHa'') = Some (Inr [cyr_sha, cyr_a])
   \<and> latinToCyrillicConvert (ascii ''PRIVET'') =
       Some (Inr [0x41F, 0x420, 0x418, 0x412, 0x415, 0x422])
   \<and> latinToCyrillicConvert (ascii ''Privet'') =
       Some (Inr [0x41F, cyr_er, cyr_i, cyr_ve, cyr_ie, cyr_te])
   \<and> cyrillicToLatinConvert [0x429, cyr_u, cyr_ka, cyr_a] = Some (Inr (ascii ''SHCHuqa''))
   \<and> uzbekLatinToCyrillic (ascii ''Shahar'') =
       Some (Inr [0x428, cyr_a, cyr_ha_descender, cyr_a, cyr_er])
   \<and> uzbekLatinToCyrillic (ascii ''SHAHAR'') = Some (Inr [0x428, 0x410, 0x4B2, 0x410, 0x420])
   \<and> uzbekCyrillicToLatin [0x428, cyr_a, cyr_ha_descender, cyr_a, cyr_er] =
       Some (Inr (ascii ''SHahar''))"
proof -
  have rule: "matchCase source target =
    (if source \<noteq> toLowerCase source \<and> source = toUpperCase source then toUpperCase target
     else if source \<noteq> [] \<and> isUpperCase [hd source]
       then toUpperCase (take 1 target) @ drop 1 target
     else target)"
    by (rule matchCase_cases)
  have step: "(i < length text \<and> findKey keys text i = Some key \<and> map_get index key = Some replacement
        \<longrightarrow> scanLoop keys index text i result =
            scanLoop keys index text (i + length key)
              (result @ matchCase (substring text i (i + length key)) replacement))"
    using scanLoop_match_step [of i "text" keys key index replacement result] by blast
  have def0: "latinToCyrillicConvert text = scanLoop sortedLatinKeys latinToCyrillic text 0 []"
    by (simp add: latinToCyrillicConvert_def)
  have def1: "cyrillicToLatinConvert text = scanLoop sortedCyrillicKeys cyrillicToLatin text 0 []"
    by (simp add: cyrillicToLatinConvert_def)
  have def2: "uzbekLatinToCyrillic text = scanLoop uzbek_sortedLatinKeys uzbek_latinToCyrillic text 0 []"
    by (simp add: uzbekLatinToCyrillic_def)
  have def3: "uzbekCyrillicToLatin text = scanLoop uzbek_sortedCyrillicKeys uzbek_cyrillicToLatin text 0 []"
    by (simp add: uzbekCyrillicToLatin_def)
  have match0: "(text \<noteq> [] \<and> findKey sortedLatinKeys text 0 = Some key \<and> map_get latinToCyrillic key = Some replacement \<longrightarrow>
        (\<exists>out. latinToCyrillicConvert (drop (length key) text) = Some (Inr out)
           \<and> latinToCyrillicConvert text =
               Some (Inr (matchCase (take (length key) text) replacement @ out))))"
    using latinToCyrillicConvert_by_chunk [of "text" key replacement] by blast
  have pass0: "(text \<noteq> [] \<and> findKey sortedLatinKeys text 0 = None \<longrightarrow>
        (\<exists>out. latinToCyrillicConvert (tl text) = Some (Inr out)
           \<and> latinToCyrillicConvert text = Some (Inr (hd text # out))))"
    using latinToCyrillicConvert_by_chunk [of "text" key replacement] by blast
  have match1: "(text \<noteq> [] \<and> findKey sortedCyrillicKeys text 0 = Some key \<and> map_get cyrillicToLatin key = Some replacement \<longrightarrow>
        (\<exists>out. cyrillicToLatinConvert (drop (length key) text) = Some (Inr out)
           \<and> cyrillicToLatinConvert text =
               Some (Inr (matchCase (take (length key) text) replacement @ out))))"
    using cyrillicToLatinConvert_by_chunk [of "text" key replacement] by blast
  have pass1: "(text \<noteq> [] \<and> findKey sortedCyrillicKeys text 0 = None \<longrightarrow>
        (\<exists>out. cyrillicToLatinConvert (tl text) = Some (Inr out)
           \<and> cyrillicToLatinConvert text = Some (Inr (hd text # out))))"
    using cyrillicToLatinConvert_by_chunk [of "text" key replacement] by blast
  have match2: "(text \<noteq> [] \<and> findKey uzbek_sortedLatinKeys text 0 = Some key \<and> map_get uzbek_latinToCyrillic key = Some replacement \<longrightarrow>
        (\<exists>out. uzbekLatinToCyrillic (drop (length key) text) = Some (Inr out)
           \<and> uzbekLatinToCyrillic text =
               Some (Inr (matchCase (take (length key) text) replacement @ out))))"
    using uzbekLatinToCyrillic_by_chunk [of "text" key replacement] by blast
  have pass2: "(text \<noteq> [] \<and> findKey uzbek_sortedLatinKeys text 0 = None \<longrightarrow>
        (\<exists>out. uzbekLatinToCyrillic (tl text) = Some (Inr out)
           \<and> uzbekLatinToCyrillic text = Some (Inr (hd text # out))))"
    using uzbekLatinToCyrillic_by_chunk [of "text" key replacement] by blast
  have match3: "(text \<noteq> [] \<and> findKey uzbek_sortedCyrillicKeys text 0 = Some key \<and> map_get uzbek_cyrillicToLatin key = Some replacement \<longrightarrow>
        (\<exists>out. uzbekCyrillicToLatin (drop (length key) text) = Some (Inr out)
           \<and> uzbekCyrillicToLatin text =
               Some (Inr (matchCase (take (length key) text) replacement @ out))))"
    using uzbekCyrillicToLatin_by_chunk [of "text" key replacement] by blast
  have pass3: "(text \<noteq> [] \<and> findKey uzbek_sortedCyrillicKeys text 0 = None \<longrightarrow>
        (\<exists>out. uzbekCyrillicToLatin (tl text) = Some (Inr out)
           \<and> uzbekCyrillicToLatin text = Some (Inr (hd text # out))))"
    using uzbekCyrillicToLatin_by_chunk [of "text" key replacement] by blast
  show ?thesis
    by (intro conjI)
      (rule rule
        step
        def0
        def1
        def2
        def3
        match0
        match1
        match2
        match3
        pass0
        pass1
        pass2
        pass3
        generic_upper_chunk
        generic_capital_chunk
        generic_inner_capital_chunk
        generic_upper_word
        generic_capital_word
        generic_reverse_capital
        uzbek_capital_chunk
        uzbek_upper_word
        uzbek_reverse_capital)+
qed

theorem case_matching_rule_witness:
  "matchCase (ascii ''Sh'') [cyr_sha] = [0x428]
   \<and> 0 < length (ascii ''SHCHuka'')
   \<and> findKey sortedLatinKeys (ascii ''SHCHuka'') 0 = Some (ascii ''shch'')
   \<and> map_get latinToCyrillic (ascii ''shch'') = Some [cyr_shcha]
   \<and> scanLoop sortedLatinKeys latinToCyrillic (ascii ''SHCHuka'') 0 [] =
       scanLoop sortedLatinKeys latinToCyrillic (ascii ''SHCHuka'') 4 [0x429]
   \<and> ascii ''SHCHuka'' \<noteq> []
   \<and> matchCase (take (length (ascii ''shch'')) (ascii ''SHCHuka'')) [cyr_shcha] = [0x429]
   \<and> latinToCyrillicConvert (drop (length (ascii ''shch'')) (ascii ''SHCHuka'')) =
       Some (Inr [cyr_u, cyr_ka, cyr_a])
   \<and> latinToCyrillicConvert (ascii ''SHCHuka'') = Some (Inr ([0x429] @ [cyr_u, cyr_ka, cyr_a]))"
proof -
  have a: "toUpperCase (take 1 [cyr_sha]) @ drop 1 [cyr_sha] = [0x428]"
    by (simp add: toUpperCase_def upperUnit_def)
  have b: "ascii ''Sh'' \<noteq> toUpperCase (ascii ''Sh'')" "ascii ''Sh'' \<noteq> []"
    "isUpperCase [hd (ascii ''Sh'')]"
    by (simp_all add: ascii_def toUpperCase_def toLowerCase_def isUpperCase_def
        upperUnit_def lowerUnit_def)
  have c: "0 < length (ascii ''SHCHuka'')" "ascii ''SHCHuka'' \<noteq> []"
    by (simp_all add: ascii_def)
  have d: "findKey sortedLatinKeys (ascii ''SHCHuka'') 0 = Some (ascii ''shch'')"
    by code_simp
  have e: "map_get latinToCyrillic (ascii ''shch'') = Some [cyr_shcha]"
    by code_simp
  have f: "matchCase (substring (ascii ''SHCHuka'') 0 (0 + length (ascii ''shch''))) [cyr_shcha]
           = [0x429]"
    by code_simp
  have f': "matchCase (take (length (ascii ''shch'')) (ascii ''SHCHuka'')) [cyr_shcha] = [0x429]"
    by code_simp
  have g: "length (ascii ''shch'') = 4" by (simp add: ascii_def)
  have h: "drop (length (ascii ''shch'')) (ascii ''SHCHuka'') = ascii ''uka''"
    by (simp add: ascii_def)
  note inst = case_matching_rule [of "ascii ''Sh''" "[cyr_sha]" 0 "ascii ''SHCHuka''"
        sortedLatinKeys "ascii ''shch''" latinToCyrillic "[cyr_shcha]" "[]"]
  have first: "matchCase (ascii ''Sh'') [cyr_sha] = [0x428]"
    using inst a b by simp
  have loop: "scanLoop sortedLatinKeys latinToCyrillic (ascii ''SHCHuka'') 0 [] =
       scanLoop sortedLatinKeys latinToCyrillic (ascii ''SHCHuka'') 4 [0x429]"
    using inst c d e f g by simp
  from inst c(2) d e obtain out
    where rest: "latinToCyrillicConvert (drop (length (ascii ''shch'')) (ascii ''SHCHuka'')) =
        Some (Inr out)"
      and whole: "latinToCyrillicConvert (ascii ''SHCHuka'') =
        Some (Inr (matchCase (take (length (ascii ''shch'')) (ascii ''SHCHuka'')) [cyr_shcha]
          @ out))"
    by blast
  from rest have "out = [cyr_u, cyr_ka, cyr_a]"
    using generic_uka by (simp add: h)
  with rest whole have
    "latinToCyrillicConvert (drop (length (ascii ''shch'')) (ascii ''SHCHuka'')) =
       Some (Inr [cyr_u, cyr_ka, cyr_a])"
    "latinToCyrillicConvert (ascii ''SHCHuka'') = Some (Inr ([0x429] @ [cyr_u, cyr_ka, cyr_a]))"
    by (simp_all add: f')
  with first loop c d e f' show ?thesis by simp
qed

end
